theory Spec2Isabelle
  imports Complex_Main "HOL-Library.AList" "HOL-Library.Sublist"
begin

chapter \<open>The program\<close>

section \<open>Python strings\<close>

text \<open>
  A Python \<open>str\<close> is a sequence of Unicode code points, so it is modelled as a list of
  natural numbers. \<open>str\<close> turns an ASCII literal of the script into such a list; the
  accented letters of the French labels are written as their code points
  (233 for e-acute, 201 for capital E-acute).
\<close>

type_synonym pystr = "nat list"

definition str :: "string \<Rightarrow> pystr" where
  "str = map of_char"

text \<open>\<open>substr_in p s\<close> is Python's \<open>p in s\<close> on strings: \<open>p\<close> occurs in \<open>s\<close> as a
  contiguous, case-sensitive run.\<close>

fun substr_in :: "pystr \<Rightarrow> pystr \<Rightarrow> bool" where
  "substr_in p [] = (p = [])"
| "substr_in p (c # cs) = (prefix p (c # cs) \<or> substr_in p cs)"

section \<open>Schema resolver: \<open>detect_columns\<close>\<close>

text \<open>The keys of the \<open>patterns\<close> dictionary, in the order the script writes them.\<close>

datatype field =
  district_number | district_name | pd_number | pd_name | rejected | total_votes | electors

definition patterns :: "(field \<times> pystr list) list" where
  "patterns =
    [(district_number, [str ''Electoral District Number'',
                        str ''Num'' @ [233] @ str ''ro de circonscription'']),
     (district_name,   [str ''Electoral District Name'', str ''Nom de circonscription'']),
     (pd_number,       [str ''Polling Division Number'',
                        str ''Num'' @ [233] @ str ''ro de section de vote'']),
     (pd_name,         [str ''Polling Division Name'', str ''Nom de section de vote'']),
     (rejected,        [str ''Rejected Ballots'', str ''Bulletins rejet'' @ [233] @ str ''s'']),
     (total_votes,     [str ''Total Votes'', str ''Total des votes'']),
     (electors,        [str ''Electors'', [201] @ str ''lecteurs''])]"

definition stop_list :: "pystr list" where
  "stop_list = [str ''rejected'', str ''total'', str ''elector'', str ''number'',
                str ''name'', str ''division'']"

text \<open>
  The inner loop \<open>for pattern in patterns: ... break / else: print(Warning)\<close> for one key:
  the first pattern with a non-empty \<open>matching_cols\<close> yields \<open>matching_cols[0]\<close>;
  \<open>None\<close> is the \<open>else\<close> branch of the loop.
\<close>

fun first_match :: "pystr list \<Rightarrow> pystr list \<Rightarrow> pystr option" where
  "first_match [] cols = None"
| "first_match (pattern # rest) cols =
     (case filter (\<lambda>col. substr_in pattern col) cols of
        [] \<Rightarrow> first_match rest cols
      | col # _ \<Rightarrow> Some col)"

text \<open>
  The outer loop over \<open>patterns.items()\<close>. It threads the dictionary \<open>detected\<close> (an
  association list in insertion order, \<open>detected[key] = ...\<close> being \<open>AList.update\<close>) and
  the keys for which the warning line was printed, in printing order.
\<close>

fun find_standard ::
  "(field \<times> pystr list) list \<Rightarrow> pystr list \<Rightarrow> (field \<times> pystr) list \<Rightarrow> field list
    \<Rightarrow> (field \<times> pystr) list \<times> field list" where
  "find_standard [] cols detected warned = (detected, warned)"
| "find_standard ((key, pats) # rest) cols detected warned =
     (case first_match pats cols of
        Some col \<Rightarrow> find_standard rest cols (AList.update key col detected) warned
      | None \<Rightarrow> find_standard rest cols detected (warned @ [key]))"

text \<open>
  The returned dictionary holds a column name under each standard key that was found and
  a list of column names under \<open>'candidates'\<close>; the list-valued entry is kept in a field
  of its own. \<open>warnings\<close> are the keys of the printed warning lines.
\<close>

record mapping =
  standard :: "(field \<times> pystr) list"
  candidates :: "pystr list"
  warnings :: "field list"

definition candidate_filter :: "pystr list \<Rightarrow> pystr list \<Rightarrow> pystr list" where
  "candidate_filter standard_cols cols =
     filter (\<lambda>col. col \<notin> set standard_cols \<and> \<not> list_ex (\<lambda>x. substr_in x col) stop_list) cols"

definition detect_columns :: "pystr list \<Rightarrow> mapping" where
  "detect_columns cols =
     (let (detected, warned) = find_standard patterns cols [] [];
          standard_cols = map snd detected
      in \<lparr> standard = detected,
           candidates = candidate_filter standard_cols cols,
           warnings = warned \<rparr>)"

text \<open>The resolution rule in the words of the specification: the first fragment that
  occurs in any header, and for it the first header in which it occurs. Occurrence is the
  library's \<open>sublist\<close>, a contiguous run.\<close>

definition spec_resolve :: "pystr list \<Rightarrow> pystr list \<Rightarrow> pystr option" where
  "spec_resolve pats cols =
     (case List.find (\<lambda>p. list_ex (sublist p) cols) pats of
        None \<Rightarrow> None
      | Some p \<Rightarrow> List.find (sublist p) cols)"

section \<open>Numbers, cells and tables\<close>

text \<open>
  A numeric value of a pandas column (\<open>int64\<close> or \<open>float64\<close>). Finite values are kept
  as exact rationals: rounding is not modelled. \<open>NaN\<close> is also the missing-value marker
  of pandas; \<open>PInf\<close> and \<open>NInf\<close> are the two infinities.
\<close>

datatype number = Fin rat | PInf | NInf | NaN

text \<open>Addition, division, multiplication and \<open>>\<close> with the special values of IEEE 754
  (signed zeros apart: \<open>x / 0\<close> takes the sign of \<open>x\<close>).\<close>

fun nadd :: "number \<Rightarrow> number \<Rightarrow> number" where
  "nadd NaN y = NaN"
| "nadd x NaN = NaN"
| "nadd (Fin a) (Fin b) = Fin (a + b)"
| "nadd PInf NInf = NaN"
| "nadd NInf PInf = NaN"
| "nadd PInf y = PInf"
| "nadd x PInf = PInf"
| "nadd NInf y = NInf"
| "nadd x NInf = NInf"

fun ndiv :: "number \<Rightarrow> number \<Rightarrow> number" where
  "ndiv NaN y = NaN"
| "ndiv x NaN = NaN"
| "ndiv (Fin a) (Fin b) =
     (if b = 0 then (if a = 0 then NaN else if 0 < a then PInf else NInf) else Fin (a / b))"
| "ndiv (Fin a) y = Fin 0"
| "ndiv PInf (Fin b) = (if b < 0 then NInf else PInf)"
| "ndiv NInf (Fin b) = (if b < 0 then PInf else NInf)"
| "ndiv x y = NaN"

fun nmul :: "number \<Rightarrow> number \<Rightarrow> number" where
  "nmul NaN y = NaN"
| "nmul x NaN = NaN"
| "nmul (Fin a) (Fin b) = Fin (a * b)"
| "nmul (Fin a) PInf = (if a = 0 then NaN else if 0 < a then PInf else NInf)"
| "nmul (Fin a) NInf = (if a = 0 then NaN else if 0 < a then NInf else PInf)"
| "nmul PInf (Fin b) = (if b = 0 then NaN else if 0 < b then PInf else NInf)"
| "nmul NInf (Fin b) = (if b = 0 then NaN else if 0 < b then NInf else PInf)"
| "nmul PInf PInf = PInf"
| "nmul NInf NInf = PInf"
| "nmul PInf NInf = NInf"
| "nmul NInf PInf = NInf"

fun ngt :: "number \<Rightarrow> number \<Rightarrow> bool" where
  "ngt NaN y = False"
| "ngt x NaN = False"
| "ngt (Fin a) (Fin b) = (b < a)"
| "ngt PInf PInf = False"
| "ngt PInf y = True"
| "ngt x PInf = False"
| "ngt NInf y = False"
| "ngt x NInf = True"

text \<open>
  A cell of a table: a string, a number (\<open>Num NaN\<close> is a missing value), or, in the
  \<open>geometry\<close> column of the boundary table, a geometry of some type \<open>'g\<close>.
  A table has its column labels in order and its rows; a row lists its cells by
  column label. Reading a label a row does not list gives the missing value, as the CSV
  reader fills short lines.
\<close>

datatype 'g cell = Str pystr | Num number | Geom 'g

type_synonym 'g row = "(pystr \<times> 'g cell) list"

record 'g frame =
  columns :: "pystr list"
  rows :: "'g row list"

definition cell_at :: "'g row \<Rightarrow> pystr \<Rightarrow> 'g cell" where
  "cell_at r c = (case map_of r c of Some v \<Rightarrow> v | None \<Rightarrow> Num NaN)"

definition num_at :: "'g row \<Rightarrow> pystr \<Rightarrow> number" where
  "num_at r c = (case cell_at r c of Num x \<Rightarrow> x | _ \<Rightarrow> NaN)"

text \<open>\<open>df[c] = f(row)\<close> for every row: an existing column keeps its place, a new one
  goes last.\<close>

definition set_column :: "pystr \<Rightarrow> ('g row \<Rightarrow> 'g cell) \<Rightarrow> 'g frame \<Rightarrow> 'g frame" where
  "set_column c f df =
     \<lparr> columns = (if c \<in> set (columns df) then columns df else columns df @ [c]),
       rows = map (\<lambda>r. AList.update c (f r) r) (rows df) \<rparr>"

text \<open>The failures the script can raise.\<close>

datatype error =
    KeyError_field field
  | KeyError pystr
  | IndexError
  | ValueError
  | IntCastingNaNError

section \<open>Text of a cell and parsing of numbers\<close>

text \<open>
  \<open>astype(str)\<close> on a column: a string stays, a missing value becomes \<open>'nan'\<close>, any
  other number becomes its printed form. The printed form of a number belongs to pandas
  and is a parameter \<open>repr\<close> of the model.
\<close>

definition astype_str :: "(number \<Rightarrow> pystr) \<Rightarrow> 'g cell \<Rightarrow> pystr" where
  "astype_str repr c =
     (case c of Str s \<Rightarrow> s | Num NaN \<Rightarrow> str ''nan'' | Num x \<Rightarrow> repr x | Geom g \<Rightarrow> [])"

text \<open>\<open>str.strip()\<close> removes the code points for which \<open>str.isspace()\<close> holds from
  both ends.\<close>

definition py_isspace :: "nat \<Rightarrow> bool" where
  "py_isspace c \<longleftrightarrow>
     (9 \<le> c \<and> c \<le> 13) \<or> (28 \<le> c \<and> c \<le> 32) \<or> c = 133 \<or> c = 160 \<or> c = 5760 \<or>
     (8192 \<le> c \<and> c \<le> 8202) \<or> c = 8232 \<or> c = 8233 \<or> c = 8239 \<or> c = 8287 \<or> c = 12288"

definition strip :: "pystr \<Rightarrow> pystr" where
  "strip s = rev (dropWhile py_isspace (rev (dropWhile py_isspace s)))"

text \<open>
  \<open>pd.to_numeric\<close> on one string, as its parser reads decimal notation: blanks of C
  around the text, an optional sign, digits with an optional fraction (at least one
  digit in all), an optional exponent; otherwise the words \<open>nan\<close>, \<open>inf\<close> and
  \<open>infinity\<close> in any case, with an optional sign. With \<open>errors='coerce'\<close> every other
  text gives \<open>NaN\<close>.
\<close>

definition c_isspace :: "nat \<Rightarrow> bool" where
  "c_isspace c \<longleftrightarrow> (9 \<le> c \<and> c \<le> 13) \<or> c = 32"

definition is_digit :: "nat \<Rightarrow> bool" where
  "is_digit c \<longleftrightarrow> 48 \<le> c \<and> c \<le> 57"

definition digits_value :: "pystr \<Rightarrow> nat" where
  "digits_value ds = foldl (\<lambda>n c. 10 * n + (c - 48)) 0 ds"

definition take_sign :: "pystr \<Rightarrow> bool \<times> pystr" where
  "take_sign s =
     (case s of
        [] \<Rightarrow> (False, [])
      | c # r \<Rightarrow> if c = 45 then (True, r) else if c = 43 then (False, r) else (False, s))"

definition lower :: "nat \<Rightarrow> nat" where
  "lower c = (if 65 \<le> c \<and> c \<le> 90 then c + 32 else c)"

definition signed :: "bool \<Rightarrow> rat \<Rightarrow> rat" where
  "signed neg q = (if neg then - q else q)"

definition parse_exponent :: "pystr \<Rightarrow> (rat \<Rightarrow> rat) option" where
  "parse_exponent s =
     (case s of
        [] \<Rightarrow> Some (\<lambda>q. q)
      | c # r \<Rightarrow>
          if c = 101 \<or> c = 69 then
            (let (eneg, ds) = take_sign r in
             if ds \<noteq> [] \<and> list_all is_digit ds
             then Some (\<lambda>q. if eneg then q / 10 ^ digits_value ds else q * 10 ^ digits_value ds)
             else None)
          else None)"

definition parse_decimal :: "pystr \<Rightarrow> rat option" where
  "parse_decimal s =
     (let (neg, s1) = take_sign s;
          ip = takeWhile is_digit s1;
          s2 = dropWhile is_digit s1;
          (fp, s3) = (case s2 of
                        [] \<Rightarrow> ([], [])
                      | c # r \<Rightarrow> if c = 46 then (takeWhile is_digit r, dropWhile is_digit r)
                                 else ([], s2))
      in if ip @ fp = [] then None
         else (case parse_exponent s3 of
                 None \<Rightarrow> None
               | Some scale \<Rightarrow>
                   Some (signed neg (scale (of_nat (digits_value (ip @ fp)) / 10 ^ length fp)))))"

definition parse_special :: "pystr \<Rightarrow> number option" where
  "parse_special s =
     (let (neg, w) = take_sign s; lw = map lower w
      in if lw = str ''nan'' then Some NaN
         else if lw = str ''inf'' \<or> lw = str ''infinity'' then Some (if neg then NInf else PInf)
         else None)"

definition to_numeric_str :: "pystr \<Rightarrow> number" where
  "to_numeric_str s =
     (case parse_decimal (rev (dropWhile c_isspace (rev (dropWhile c_isspace s)))) of
        Some q \<Rightarrow> Fin q
      | None \<Rightarrow> (case parse_special s of Some x \<Rightarrow> x | None \<Rightarrow> NaN))"

text \<open>\<open>pd.to_numeric(column, errors='coerce')\<close> on one cell.\<close>

definition to_numeric :: "'g cell \<Rightarrow> number" where
  "to_numeric c = (case c of Str s \<Rightarrow> to_numeric_str s | Num x \<Rightarrow> x | Geom g \<Rightarrow> NaN)"

text \<open>\<open>fillna(0)\<close> and \<open>astype(int)\<close> on one value: the cast truncates towards zero and
  refuses a value that is not finite. The result is an unbounded integer: the 64-bit
  range of the \<open>int64\<close> column is not modelled.\<close>

definition fillna0 :: "number \<Rightarrow> number" where
  "fillna0 x = (case x of NaN \<Rightarrow> Fin 0 | _ \<Rightarrow> x)"

definition astype_int :: "number \<Rightarrow> error + int" where
  "astype_int x =
     (case x of
        Fin q \<Rightarrow> Inr (if 0 \<le> q then \<lfloor>q\<rfloor> else \<lceil>q\<rceil>)
      | _ \<Rightarrow> Inl IntCastingNaNError)"

section \<open>Table operations of pandas\<close>

text \<open>Elementwise \<open>==\<close>: a missing value equals nothing, a string never equals a
  number.\<close>

fun cell_eq :: "'g cell \<Rightarrow> 'g cell \<Rightarrow> bool" where
  "cell_eq (Str a) (Str b) = (a = b)"
| "cell_eq (Num a) (Num b) = (a \<noteq> NaN \<and> a = b)"
| "cell_eq x y = False"

text \<open>\<open>df[mask]\<close> keeps the rows of the mask, in order.\<close>

definition filter_rows :: "('g row \<Rightarrow> bool) \<Rightarrow> 'g frame \<Rightarrow> 'g frame" where
  "filter_rows keep df = \<lparr> columns = columns df, rows = filter keep (rows df) \<rparr>"

text \<open>\<open>df[c] = values\<close>, the values given row by row.\<close>

definition assign :: "pystr \<Rightarrow> 'g cell list \<Rightarrow> 'g frame \<Rightarrow> 'g frame" where
  "assign c vals df =
     \<lparr> columns = (if c \<in> set (columns df) then columns df else columns df @ [c]),
       rows = map (\<lambda>(r, v). AList.update c v r) (zip (rows df) vals) \<rparr>"

text \<open>\<open>df.columns = labels\<close> renames the columns by position.\<close>

definition rename_columns :: "pystr list \<Rightarrow> 'g frame \<Rightarrow> 'g frame" where
  "rename_columns labels df =
     \<lparr> columns = labels, rows = map (\<lambda>r. zip labels (map snd r)) (rows df) \<rparr>"

text \<open>
  \<open>df.groupby(by)\<close> on an integer column: one group for each value of the column, the
  groups in ascending order of the value, the rows of a group in their order in \<open>df\<close>.
  \<open>first()\<close> takes the first value of the group that is not missing, \<open>sum()\<close> adds the
  values that are not missing (an empty sum is 0), and \<open>reset_index()\<close> puts the group
  value back as the first column, which fails when that label is among the summed ones.
\<close>

definition key_of :: "pystr \<Rightarrow> 'g row \<Rightarrow> int" where
  "key_of by r = (case cell_at r by of Num (Fin q) \<Rightarrow> \<lfloor>q\<rfloor> | _ \<Rightarrow> 0)"

definition key_cell :: "int \<Rightarrow> 'g cell" where
  "key_cell k = Num (Fin (of_int k))"

definition group_keys :: "pystr \<Rightarrow> 'g frame \<Rightarrow> int list" where
  "group_keys by df = sort (remdups (map (key_of by) (rows df)))"

definition group_rows :: "pystr \<Rightarrow> 'g frame \<Rightarrow> int \<Rightarrow> 'g row list" where
  "group_rows by df k = filter (\<lambda>r. key_of by r = k) (rows df)"

definition first_valid :: "'g cell list \<Rightarrow> 'g cell" where
  "first_valid cs = (case filter (\<lambda>c. c \<noteq> Num NaN) cs of [] \<Rightarrow> Num NaN | c # _ \<Rightarrow> c)"

definition sum_skipna :: "number list \<Rightarrow> number" where
  "sum_skipna xs = foldl nadd (Fin 0) (filter (\<lambda>x. x \<noteq> NaN) xs)"

definition groupby_first :: "pystr \<Rightarrow> pystr \<Rightarrow> 'g frame \<Rightarrow> 'g frame" where
  "groupby_first by col df =
     \<lparr> columns = [by, col],
       rows = map (\<lambda>k. [(by, key_cell k),
                         (col, first_valid (map (\<lambda>r. cell_at r col) (group_rows by df k)))])
                  (group_keys by df) \<rparr>"

definition groupby_sum :: "pystr \<Rightarrow> pystr list \<Rightarrow> 'g frame \<Rightarrow> error + 'g frame" where
  "groupby_sum by cols df =
     (if by \<in> set cols then Inl ValueError
      else Inr \<lparr> columns = by # cols,
                 rows = map (\<lambda>k. (by, key_cell k) #
                                  map (\<lambda>c. (c, Num (sum_skipna
                                                (map (\<lambda>r. num_at r c) (group_rows by df k)))))
                                      cols)
                            (group_keys by df) \<rparr>)"

text \<open>
  \<open>left.merge(right, on=key, how=...)\<close>. A label other than the key that both tables
  carry gets the suffix \<open>_x\<close> on the left and \<open>_y\<close> on the right. Every left row, in
  order, is paired with the right rows of the same key; with \<open>how='left'\<close> a left row
  without a partner is kept with missing values, with \<open>how='inner'\<close> it is dropped.
  A key column that a table lacks is a \<open>KeyError\<close>.
\<close>

datatype how = Inner | Left

definition suffixed :: "pystr \<Rightarrow> pystr list \<Rightarrow> pystr \<Rightarrow> pystr \<Rightarrow> pystr" where
  "suffixed key others sfx c = (if c \<noteq> key \<and> c \<in> set others then c @ sfx else c)"

definition relabel :: "(pystr \<Rightarrow> pystr) \<Rightarrow> 'g row \<Rightarrow> 'g row" where
  "relabel f r = map (\<lambda>(c, v). (f c, v)) r"

definition merge :: "pystr \<Rightarrow> how \<Rightarrow> 'g frame \<Rightarrow> 'g frame \<Rightarrow> error + 'g frame" where
  "merge key h left right =
     (if key \<notin> set (columns left) \<or> key \<notin> set (columns right) then Inl (KeyError key)
      else
        let fx = suffixed key (columns right) (str ''_x'');
            fy = suffixed key (columns left) (str ''_y'');
            rcols = map fy (filter (\<lambda>c. c \<noteq> key) (columns right));
            right_part = (\<lambda>r. relabel fy (filter (\<lambda>(c, v). c \<noteq> key) r))
        in Inr \<lparr> columns = map fx (columns left) @ rcols,
                  rows = concat (map (\<lambda>l.
                           case filter (\<lambda>r. cell_at r key = cell_at l key) (rows right) of
                             [] \<Rightarrow> (case h of
                                      Inner \<Rightarrow> []
                                    | Left \<Rightarrow> [relabel fx l @ map (\<lambda>c. (c, Num NaN)) rcols])
                           | ms \<Rightarrow> map (\<lambda>r. relabel fx l @ right_part r) ms)
                         (rows left)) \<rparr>)"

text \<open>\<open>df[labels]\<close> with a list of labels: a label the table lacks is a \<open>KeyError\<close>.\<close>

definition select_columns :: "pystr list \<Rightarrow> 'g frame \<Rightarrow> error + 'g frame" where
  "select_columns labels df =
     (case List.find (\<lambda>c. c \<notin> set (columns df)) labels of
        Some c \<Rightarrow> Inl (KeyError c)
      | None \<Rightarrow> Inr \<lparr> columns = labels,
                       rows = map (\<lambda>r. map (\<lambda>c. (c, cell_at r c)) labels) (rows df) \<rparr>)"

text \<open>\<open>df[c]\<close> with one label, and \<open>unique()\<close> and \<open>nunique()\<close> on the column.\<close>

definition get_column :: "pystr \<Rightarrow> 'g frame \<Rightarrow> error + 'g cell list" where
  "get_column c df =
     (if c \<in> set (columns df) then Inr (map (\<lambda>r. cell_at r c) (rows df)) else Inl (KeyError c))"

definition unique :: "'g cell list \<Rightarrow> 'g cell list" where
  "unique cs = rev (remdups (rev cs))"

definition nunique :: "'g cell list \<Rightarrow> nat" where
  "nunique cs = length (unique (filter (\<lambda>c. c \<noteq> Num NaN) cs))"

text \<open>\<open>to_crs\<close> reprojects every geometry; \<open>reproject\<close> belongs to geopandas and is a
  parameter, \<open>None\<close> where geopandas raises (a table without a reference system).\<close>

definition reproject_cell :: "('g \<Rightarrow> 'g option) \<Rightarrow> 'g cell \<Rightarrow> 'g cell option" where
  "reproject_cell reproject c =
     (case c of Geom g \<Rightarrow> map_option Geom (reproject g) | _ \<Rightarrow> Some c)"

definition to_crs :: "('g \<Rightarrow> 'g option) \<Rightarrow> 'g frame \<Rightarrow> error + 'g frame" where
  "to_crs reproject df =
     (if list_all (\<lambda>r. list_all (\<lambda>(c, v). reproject_cell reproject v \<noteq> None) r) (rows df)
      then Inr \<lparr> columns = columns df,
                 rows = map (\<lambda>r. map (\<lambda>(c, v). (c, the (reproject_cell reproject v))) r)
                            (rows df) \<rparr>
      else Inl ValueError)"

section \<open>The script: cleaning, coercion and aggregation\<close>

text \<open>The column labels the script writes as literals.\<close>

definition PD_NUM :: pystr where "PD_NUM = str ''PD_NUM''"
definition PD_NAME :: pystr where "PD_NAME = str ''PD_NAME''"
definition FED_NUM :: pystr where "FED_NUM = str ''FED_NUM''"
definition GEOMETRY :: pystr where "GEOMETRY = str ''geometry''"
definition LEADING :: pystr where "LEADING = str ''leading_candidate''"
definition LEADING_PCT :: pystr where "LEADING_PCT = str ''leading_candidate_pct''"

definition pct_name :: "pystr \<Rightarrow> pystr" where
  "pct_name candidate = candidate @ str ''_pct''"

text \<open>Sequencing of steps that may raise.\<close>

definition bindE :: "error + 'a \<Rightarrow> ('a \<Rightarrow> error + 'b) \<Rightarrow> error + 'b" where
  "bindE m f = (case m of Inl e \<Rightarrow> Inl e | Inr x \<Rightarrow> f x)"

fun map_result :: "('a \<Rightarrow> error + 'b) \<Rightarrow> 'a list \<Rightarrow> error + 'b list" where
  "map_result f [] = Inr []"
| "map_result f (x # xs) =
     (case f x of
        Inl e \<Rightarrow> Inl e
      | Inr y \<Rightarrow> (case map_result f xs of Inl e \<Rightarrow> Inl e | Inr ys \<Rightarrow> Inr (y # ys)))"

text \<open>\<open>column_mapping[key]\<close> on the dictionary of \<open>detect_columns\<close>, and the eight
  names the script extracts from it (lines 29 to 36, in that order).\<close>

definition getitem :: "(field \<times> pystr) list \<Rightarrow> field \<Rightarrow> error + pystr" where
  "getitem d key = (case map_of d key of Some v \<Rightarrow> Inr v | None \<Rightarrow> Inl (KeyError_field key))"

record cols =
  district_num_col :: pystr
  district_name_col :: pystr
  pd_num_col :: pystr
  pd_name_col :: pystr
  candidate_cols :: "pystr list"
  rejected_col :: pystr
  total_votes_col :: pystr
  electors_col :: pystr

definition extract_columns :: "mapping \<Rightarrow> error + cols" where
  "extract_columns column_mapping =
     bindE (getitem (standard column_mapping) district_number) (\<lambda>dnum.
     bindE (getitem (standard column_mapping) district_name) (\<lambda>dname.
     bindE (getitem (standard column_mapping) pd_number) (\<lambda>pnum.
     bindE (getitem (standard column_mapping) pd_name) (\<lambda>pname.
     bindE (getitem (standard column_mapping) rejected) (\<lambda>rej.
     bindE (getitem (standard column_mapping) total_votes) (\<lambda>tot.
     bindE (getitem (standard column_mapping) electors) (\<lambda>el.
       Inr \<lparr> district_num_col = dnum, district_name_col = dname, pd_num_col = pnum,
             pd_name_col = pname, candidate_cols = candidates column_mapping,
             rejected_col = rej, total_votes_col = tot, electors_col = el \<rparr>)))))))"

definition numeric_cols :: "cols \<Rightarrow> pystr list" where
  "numeric_cols cs = candidate_cols cs @ [rejected_col cs, total_votes_col cs, electors_col cs]"

text \<open>\<open>series.iloc[0]\<close>.\<close>

definition iloc0 :: "'a list \<Rightarrow> error + 'a" where
  "iloc0 xs = (case xs of [] \<Rightarrow> Inl IndexError | x # _ \<Rightarrow> Inr x)"

text \<open>\<open>filter_combined_rows\<close>: the rows whose text in the given column contains
  \<open>Combined\<close> are left out.\<close>

definition is_combined :: "(number \<Rightarrow> pystr) \<Rightarrow> pystr \<Rightarrow> 'g row \<Rightarrow> bool" where
  "is_combined repr col r = substr_in (str ''Combined'') (astype_str repr (cell_at r col))"

definition filter_combined_rows ::
  "(number \<Rightarrow> pystr) \<Rightarrow> 'g frame \<Rightarrow> pystr \<Rightarrow> 'g frame" where
  "filter_combined_rows repr df first_candidate_col =
     filter_rows (\<lambda>r. \<not> is_combined repr first_candidate_col r) df"

text \<open>Lines 70 and 71: every numeric column is replaced by its coerced values.\<close>

definition convert_numeric :: "pystr list \<Rightarrow> 'g frame \<Rightarrow> 'g frame" where
  "convert_numeric ncols df =
     foldl (\<lambda>d col. set_column col (\<lambda>r. Num (to_numeric (cell_at r col))) d) df ncols"

text \<open>Line 74: the integer key of a row from its polling-division cell, and the new
  column \<open>PD_NUM\<close>.\<close>

definition pd_num_value :: "(number \<Rightarrow> pystr) \<Rightarrow> 'g cell \<Rightarrow> error + int" where
  "pd_num_value repr c = astype_int (fillna0 (to_numeric_str (strip (astype_str repr c))))"

definition add_pd_num :: "(number \<Rightarrow> pystr) \<Rightarrow> pystr \<Rightarrow> 'g frame \<Rightarrow> error + 'g frame" where
  "add_pd_num repr col df =
     bindE (map_result (\<lambda>r. pd_num_value repr (cell_at r col)) (rows df))
       (\<lambda>ks. Inr (assign PD_NUM (map key_cell ks) df))"

text \<open>Lines 66 to 74 together: the table \<open>csv_clean\<close> that is aggregated.\<close>

definition csv_clean_of :: "(number \<Rightarrow> pystr) \<Rightarrow> 'g frame \<Rightarrow> cols \<Rightarrow> error + 'g frame" where
  "csv_clean_of repr csv_data cs =
     bindE (iloc0 (candidate_cols cs)) (\<lambda>first_candidate.
       add_pd_num repr (pd_num_col cs)
         (convert_numeric (numeric_cols cs) (filter_combined_rows repr csv_data first_candidate)))"

text \<open>Lines 84 to 87: one percentage column for each candidate, in the order of the
  candidate list.\<close>

definition percentage :: "number \<Rightarrow> number \<Rightarrow> number" where
  "percentage votes total_v = nmul (ndiv votes total_v) (Fin 100)"

definition add_percentages :: "pystr list \<Rightarrow> pystr \<Rightarrow> 'g frame \<Rightarrow> 'g frame" where
  "add_percentages cands total_col df =
     foldl (\<lambda>d candidate.
              set_column (pct_name candidate)
                (\<lambda>r. Num (percentage (num_at r candidate) (num_at r total_col))) d)
           df cands"

text \<open>
  \<open>find_leading_candidate\<close>: the dictionary \<open>candidate_votes\<close> is built in the order of
  the candidate list, and \<open>max(candidate_votes, key=candidate_votes.get)\<close> walks its keys
  in that order, keeping the current best unless a later key has a strictly greater
  value. \<open>max\<close> of no key raises \<open>ValueError\<close>.
\<close>

definition py_max :: "('a \<Rightarrow> number) \<Rightarrow> 'a list \<Rightarrow> error + 'a" where
  "py_max key xs =
     (case xs of
        [] \<Rightarrow> Inl ValueError
      | x # rest \<Rightarrow> Inr (foldl (\<lambda>best y. if ngt (key y) (key best) then y else best) x rest))"

definition find_leading_candidate :: "'g row \<Rightarrow> pystr list \<Rightarrow> error + pystr" where
  "find_leading_candidate r cands =
     (let candidate_votes = foldl (\<lambda>d candidate. AList.update candidate (num_at r candidate) d)
                                  [] cands
      in py_max (\<lambda>c. case map_of candidate_votes c of Some v \<Rightarrow> v | None \<Rightarrow> NaN)
                (map fst candidate_votes))"

text \<open>Lines 90 to 95: the two \<open>apply\<close> calls, row by row.\<close>

definition leading_pct_of :: "'g row \<Rightarrow> 'g cell" where
  "leading_pct_of r =
     (case cell_at r LEADING of Str name \<Rightarrow> cell_at r (pct_name name) | _ \<Rightarrow> Num NaN)"

definition add_leading :: "pystr list \<Rightarrow> 'g frame \<Rightarrow> error + 'g frame" where
  "add_leading cands df =
     bindE (map_result (\<lambda>r. find_leading_candidate r cands) (rows df)) (\<lambda>leaders.
       Inr (set_column LEADING_PCT leading_pct_of (assign LEADING (map Str leaders) df)))"

text \<open>Lines 76 to 98: names, sums, percentages, leader, and the left merge with the
  names.\<close>

definition polling_division_names :: "pystr \<Rightarrow> 'g frame \<Rightarrow> 'g frame" where
  "polling_division_names name_col csv_clean =
     rename_columns [PD_NUM, PD_NAME] (groupby_first PD_NUM name_col csv_clean)"

definition polling_division_results :: "cols \<Rightarrow> 'g frame \<Rightarrow> error + 'g frame" where
  "polling_division_results cs csv_clean =
     bindE (groupby_sum PD_NUM (numeric_cols cs) csv_clean) (\<lambda>summed.
     bindE (add_leading (candidate_cols cs)
              (add_percentages (candidate_cols cs) (total_votes_col cs) summed)) (\<lambda>res.
       merge PD_NUM Left res (polling_division_names (pd_name_col cs) csv_clean)))"

definition aggregate :: "(number \<Rightarrow> pystr) \<Rightarrow> 'g frame \<Rightarrow> cols \<Rightarrow> error + 'g frame" where
  "aggregate repr csv_data cs =
     bindE (csv_clean_of repr csv_data cs) (polling_division_results cs)"

section \<open>The script: join, output and \<open>main\<close>\<close>

text \<open>
  What a run does to the outside, in order: the lines it prints (each with the values
  that go into it) and the files it writes.
\<close>

datatype 'g event =
    Reading_csv pystr
  | Warning field
  | Detected_columns cols
  | Processing_for "'g cell" "'g cell"
  | Reading_geojson pystr
  | Total_features nat
  | Unique_fed_nums "'g cell list"
  | Features_for_district "'g cell" nat
  | Divisions_in_csv nat
  | Divisions_in_geojson nat
  | Merged_features nat
  | Write_file pystr "'g frame"
  | Processing_complete pystr pystr
  | Sample "'g row list"
  | Template_suggestion "pystr list" pystr
  | Error_processing error
  | Usage
  | File_not_found pystr

text \<open>A step of the run yields the events it caused and either the error it raised
  or its value; \<open>seq\<close> runs a second step after a first one that did not raise.\<close>

type_synonym ('g, 'a) comp = "'g event list \<times> (error + 'a)"

definition say :: "'g event list \<Rightarrow> ('g, unit) comp" where
  "say evs = (evs, Inr ())"

definition lift :: "error + 'a \<Rightarrow> ('g, 'a) comp" where
  "lift r = ([], r)"

definition seq :: "('g, 'a) comp \<Rightarrow> ('a \<Rightarrow> ('g, 'b) comp) \<Rightarrow> ('g, 'b) comp" where
  "seq m f =
     (case m of
        (out, Inl e) \<Rightarrow> (out, Inl e)
      | (out, Inr x) \<Rightarrow> (case f x of (out', r) \<Rightarrow> (out @ out', r)))"

text \<open>The default output prefix:
  \<open>os.path.splitext(os.path.basename(csv_filename))[0]\<close>.\<close>

definition basename :: "pystr \<Rightarrow> pystr" where
  "basename p = rev (takeWhile (\<lambda>c. c \<noteq> 47) (rev p))"

definition splitext_root :: "pystr \<Rightarrow> pystr" where
  "splitext_root b =
     (let dots = takeWhile (\<lambda>c. c = 46) b; rest = dropWhile (\<lambda>c. c = 46) b
      in if 46 \<in> set rest
         then dots @ rev (tl (dropWhile (\<lambda>c. c \<noteq> 46) (rev rest)))
         else b)"

record 'g result =
  res_district_number :: "'g cell"
  res_district_name :: "'g cell"
  res_candidates :: "pystr list"
  results_file :: pystr
  simple_file :: pystr

text \<open>Lines 115 to 133: the two files and the closing lines.\<close>

definition simple_columns :: "cols \<Rightarrow> pystr list" where
  "simple_columns cs =
     [PD_NUM, PD_NAME, GEOMETRY] @ numeric_cols cs @ [LEADING, LEADING_PCT] @
     map pct_name (candidate_cols cs)"

definition write_outputs :: "pystr \<Rightarrow> cols \<Rightarrow> 'g frame \<Rightarrow> ('g, pystr \<times> pystr) comp" where
  "write_outputs output_prefix cs merged_gdf =
     (let results_filename = output_prefix @ str ''_election_results.geojson'';
          simple_filename = output_prefix @ str ''_election_simple.geojson''
      in seq (say [Write_file results_filename merged_gdf]) (\<lambda>_.
         seq (lift (select_columns (simple_columns cs) merged_gdf)) (\<lambda>simple_gdf.
         seq (say [Write_file simple_filename simple_gdf,
                   Processing_complete results_filename simple_filename]) (\<lambda>_.
         seq (lift (select_columns [PD_NUM, PD_NAME] merged_gdf)) (\<lambda>sample.
         seq (say [Sample (take 10 (rows sample))]) (\<lambda>_.
           lift (Inr (results_filename, simple_filename))))))))"

text \<open>Lines 61 to 63 and 100 to 113: the district filter, the inner join and the
  reprojection.\<close>

definition district_features :: "'g cell \<Rightarrow> 'g frame \<Rightarrow> 'g frame" where
  "district_features district gdf =
     filter_rows (\<lambda>r. cell_eq (cell_at r FED_NUM) district) gdf"

definition join_features ::
  "('g \<Rightarrow> 'g option) \<Rightarrow> 'g frame \<Rightarrow> 'g frame \<Rightarrow> ('g, 'g frame) comp" where
  "join_features reproject gdf_district results =
     seq (lift (get_column PD_NUM results)) (\<lambda>csv_pds.
     seq (say [Divisions_in_csv (nunique csv_pds)]) (\<lambda>_.
     seq (lift (get_column PD_NUM gdf_district)) (\<lambda>geo_pds.
     seq (say [Divisions_in_geojson (nunique geo_pds)]) (\<lambda>_.
     seq (lift (merge PD_NUM Inner gdf_district results)) (\<lambda>merged.
     seq (say [Merged_features (length (rows merged))]) (\<lambda>_.
       lift (to_crs reproject merged)))))))"

text \<open>
  \<open>process_election_data\<close>. The two input files are given by the tables read from
  them; \<open>output_prefix\<close> is \<open>None\<close> when the caller passes none.
\<close>

definition process_election_data ::
  "(number \<Rightarrow> pystr) \<Rightarrow> ('g \<Rightarrow> 'g option) \<Rightarrow> pystr \<Rightarrow> 'g frame \<Rightarrow> pystr \<Rightarrow> 'g frame
    \<Rightarrow> pystr option \<Rightarrow> ('g, 'g result) comp" where
  "process_election_data repr reproject csv_filename csv_data geojson_filename gdf output_prefix0 =
     (let output_prefix = (case output_prefix0 of
                             None \<Rightarrow> splitext_root (basename csv_filename)
                           | Some p \<Rightarrow> p);
          column_mapping = detect_columns (columns csv_data)
      in seq (say (Reading_csv csv_filename # map Warning (warnings column_mapping))) (\<lambda>_.
         seq (lift (extract_columns column_mapping)) (\<lambda>cs.
         seq (say [Detected_columns cs]) (\<lambda>_.
         seq (lift (bindE (get_column (district_num_col cs) csv_data) iloc0)) (\<lambda>district.
         seq (lift (bindE (get_column (district_name_col cs) csv_data) iloc0)) (\<lambda>dname.
         seq (say [Processing_for dname district, Reading_geojson geojson_filename,
                   Total_features (length (rows gdf))]) (\<lambda>_.
         seq (lift (get_column FED_NUM gdf)) (\<lambda>fed_nums.
         seq (say [Unique_fed_nums (unique fed_nums),
                   Features_for_district district
                     (length (rows (district_features district gdf)))]) (\<lambda>_.
         seq (lift (aggregate repr csv_data cs)) (\<lambda>results.
         seq (join_features reproject (district_features district gdf) results) (\<lambda>merged_gdf.
         seq (write_outputs output_prefix cs merged_gdf) (\<lambda>(results_filename, simple_filename).
           lift (Inr \<lparr> res_district_number = district, res_district_name = dname,
                       res_candidates = candidate_cols cs,
                       results_file = results_filename,
                       simple_file = simple_filename \<rparr>)))))))))))))"

text \<open>
  \<open>main\<close>. \<open>argv\<close> are the arguments after the script name; \<open>fs\<close> gives the table a
  path holds and \<open>None\<close> for a path that does not exist. A failure of the processing is
  printed and raised again; the other exits return normally.
\<close>

definition main ::
  "(number \<Rightarrow> pystr) \<Rightarrow> ('g \<Rightarrow> 'g option) \<Rightarrow> (pystr \<Rightarrow> 'g frame option) \<Rightarrow> pystr list
    \<Rightarrow> ('g, unit) comp" where
  "main repr reproject fs argv =
     (case argv of
        [] \<Rightarrow> say [Usage]
      | csv_filename # args \<Rightarrow>
          let geojson_filename = (case args of
                                    [] \<Rightarrow> str ''polling_divisions.geojson''
                                  | g # _ \<Rightarrow> g);
              output_prefix = (case args of _ # p # _ \<Rightarrow> Some p | _ \<Rightarrow> None)
          in case fs csv_filename of
               None \<Rightarrow> say [File_not_found csv_filename]
             | Some csv_data \<Rightarrow>
                 (case fs geojson_filename of
                    None \<Rightarrow> say [File_not_found geojson_filename]
                  | Some gdf \<Rightarrow>
                      (case process_election_data repr reproject csv_filename csv_data
                              geojson_filename gdf output_prefix of
                         (out, Inl e) \<Rightarrow> (out @ [Error_processing e], Inl e)
                       | (out, Inr result) \<Rightarrow>
                           (out @ [Template_suggestion (res_candidates result)
                                     (simple_file result)], Inr ()))))"

section \<open>Example tables\<close>

text \<open>Headers in English and in French with two candidate columns, and an English
  header row that lacks the electors column.\<close>

definition ex_headers :: "pystr list" where
  "ex_headers =
     [str ''Electoral District Number'', str ''Electoral District Name'',
      str ''Polling Division Number'', str ''Polling Division Name'',
      str ''A'', str ''B'', str ''Rejected Ballots'', str ''Total Votes'', str ''Electors'']"

definition ex_headers_fr :: "pystr list" where
  "ex_headers_fr =
     [str ''Num'' @ [233] @ str ''ro de circonscription'', str ''Nom de circonscription'',
      str ''Num'' @ [233] @ str ''ro de section de vote'', str ''Nom de section de vote'',
      str ''A'', str ''B'', str ''Bulletins rejet'' @ [233] @ str ''s'',
      str ''Total des votes'', [201] @ str ''lecteurs'']"

definition ex_headers_short :: "pystr list" where
  "ex_headers_short = butlast ex_headers"

definition ex_repr :: "number \<Rightarrow> pystr" where
  "ex_repr x = []"

definition ex_csv_short :: "unit frame" where
  "ex_csv_short =
     \<lparr> columns = ex_headers_short,
       rows = [zip ex_headers_short
                 [Num (Fin 24030), Str (str ''Jonquiere''), Str (str ''100''),
                  Str (str ''North''), Str (str ''5''), Str (str ''3''), Str (str ''1''),
                  Str (str ''9'')]] \<rparr>"

definition ex_geo :: "unit frame" where
  "ex_geo =
     \<lparr> columns = [FED_NUM, PD_NUM, GEOMETRY],
       rows = [[(FED_NUM, Num (Fin 24030)), (PD_NUM, Num (Fin 100)), (GEOMETRY, Geom ())],
               [(FED_NUM, Num (Fin 24030)), (PD_NUM, Num (Fin 102)), (GEOMETRY, Geom ())],
               [(FED_NUM, Num (Fin 24031)), (PD_NUM, Num (Fin 100)), (GEOMETRY, Geom ())]] \<rparr>"

section \<open>Auxiliary notions for the statements\<close>

text \<open>
  The effect of lines 70 to 74 on one row: \<open>coerce_row\<close> is the row after the numeric
  columns were coerced, \<open>row_key\<close> the integer key computed from it. They are used to
  state what the column-wise code does row by row.
\<close>

definition coerce_row :: "pystr list \<Rightarrow> 'g row \<Rightarrow> 'g row" where
  "coerce_row ncols r = foldl (\<lambda>r c. AList.update c (Num (to_numeric (cell_at r c))) r) r ncols"

definition row_key :: "(number \<Rightarrow> pystr) \<Rightarrow> cols \<Rightarrow> 'g row \<Rightarrow> error + int" where
  "row_key repr cs r = pd_num_value repr (cell_at (coerce_row (numeric_cols cs) r) (pd_num_col cs))"

text \<open>The effect of the percentage loop (lines 84 to 87) on one row.\<close>

definition pct_row :: "pystr list \<Rightarrow> pystr \<Rightarrow> 'g row \<Rightarrow> 'g row" where
  "pct_row cands total_col r =
     foldl (\<lambda>r candidate.
              AList.update (pct_name candidate)
                (Num (percentage (num_at r candidate) (num_at r total_col))) r)
           r cands"


text \<open>The output prefix a run uses.\<close>

definition prefix_of :: "pystr \<Rightarrow> pystr option \<Rightarrow> pystr" where
  "prefix_of fn p = (case p of None \<Rightarrow> splitext_root (basename fn) | Some q \<Rightarrow> q)"

text \<open>The names of the files a run has written, in order.\<close>

fun written :: "'g event list \<Rightarrow> pystr list" where
  "written [] = []"
| "written (Write_file name df # evs) = name # written evs"
| "written (ev # evs) = written evs"

text \<open>
  A table with a row of combined results: division 100 has the placeholder row and two
  rows of counts, division 101 has one row whose first candidate cell is missing and
  whose total is not a number.
\<close>

definition ex_cols :: cols where
  "ex_cols =
     \<lparr> district_num_col = str ''Electoral District Number'',
       district_name_col = str ''Electoral District Name'',
       pd_num_col = str ''Polling Division Number'',
       pd_name_col = str ''Polling Division Name'',
       candidate_cols = [str ''A'', str ''B''],
       rejected_col = str ''Rejected Ballots'',
       total_votes_col = str ''Total Votes'',
       electors_col = str ''Electors'' \<rparr>"

definition ex_csv :: "unit frame" where
  "ex_csv =
     \<lparr> columns = ex_headers,
       rows =
         [zip ex_headers
            [Num (Fin 24030), Str (str ''Jonquiere''), Str (str ''100''), Num NaN,
             Str (str ''Combined''), Str (str ''100''), Num NaN, Str (str ''100''), Num NaN],
          zip ex_headers
            [Num (Fin 24030), Str (str ''Jonquiere''), Str (str ''100''), Num NaN,
             Str (str ''5''), Str (str ''3''), Str (str ''1''), Str (str ''9''),
             Str (str ''20'')],
          zip ex_headers
            [Num (Fin 24030), Str (str ''Jonquiere''), Str (str '' 100 ''), Str (str ''North''),
             Str (str ''7''), Str (str ''4''), Str (str ''0''), Str (str ''11''),
             Str (str ''30'')],
          zip ex_headers
            [Num (Fin 24030), Str (str ''Jonquiere''), Str (str ''101''), Str (str ''South''),
             Num NaN, Str (str ''6''), Str (str ''0''), Str (str ''n/a''),
             Str (str ''15'')]] \<rparr>"

text \<open>The cleaned table, the sums and the aggregate the script computes from \<open>ex_csv\<close>.\<close>

definition ex_clean :: "unit frame" where
  "ex_clean =
     \<lparr> columns = ex_headers @ [PD_NUM],
       rows =
         [zip (ex_headers @ [PD_NUM])
            [Num (Fin 24030), Str (str ''Jonquiere''), Str (str ''100''), Num NaN,
             Num (Fin 5), Num (Fin 3), Num (Fin 1), Num (Fin 9), Num (Fin 20), Num (Fin 100)],
          zip (ex_headers @ [PD_NUM])
            [Num (Fin 24030), Str (str ''Jonquiere''), Str (str '' 100 ''), Str (str ''North''),
             Num (Fin 7), Num (Fin 4), Num (Fin 0), Num (Fin 11), Num (Fin 30), Num (Fin 100)],
          zip (ex_headers @ [PD_NUM])
            [Num (Fin 24030), Str (str ''Jonquiere''), Str (str ''101''), Str (str ''South''),
             Num NaN, Num (Fin 6), Num (Fin 0), Num NaN, Num (Fin 15), Num (Fin 101)]] \<rparr>"

definition ex_sum_labels :: "pystr list" where
  "ex_sum_labels =
     [PD_NUM, str ''A'', str ''B'', str ''Rejected Ballots'', str ''Total Votes'', str ''Electors'']"

definition ex_summed :: "unit frame" where
  "ex_summed =
     \<lparr> columns = ex_sum_labels,
       rows =
         [zip ex_sum_labels
            [Num (Fin 100), Num (Fin 12), Num (Fin 7), Num (Fin 1), Num (Fin 20), Num (Fin 50)],
          zip ex_sum_labels
            [Num (Fin 101), Num (Fin 0), Num (Fin 6), Num (Fin 0), Num (Fin 0), Num (Fin 15)]] \<rparr>"

definition ex_result_labels :: "pystr list" where
  "ex_result_labels =
     ex_sum_labels @ [str ''A_pct'', str ''B_pct'', LEADING, LEADING_PCT, PD_NAME]"

definition ex_results :: "unit frame" where
  "ex_results =
     \<lparr> columns = ex_result_labels,
       rows =
         [zip ex_result_labels
            [Num (Fin 100), Num (Fin 12), Num (Fin 7), Num (Fin 1), Num (Fin 20), Num (Fin 50),
             Num (Fin 60), Num (Fin 35), Str (str ''A''), Num (Fin 60), Str (str ''North'')],
          zip ex_result_labels
            [Num (Fin 101), Num (Fin 0), Num (Fin 6), Num (Fin 0), Num (Fin 0), Num (Fin 15),
             Num NaN, Num PInf, Str (str ''B''), Num PInf, Str (str ''South'')]] \<rparr>"

text \<open>One aggregate with the votes A: 10, B: 15, C: 3 and 28 votes in total, and one
  with a tie between A and B.\<close>

definition ex_votes :: "unit frame" where
  "ex_votes =
     \<lparr> columns = [PD_NUM, str ''A'', str ''B'', str ''C'', str ''T''],
       rows = [[(PD_NUM, Num (Fin 1)), (str ''A'', Num (Fin 10)), (str ''B'', Num (Fin 15)),
                (str ''C'', Num (Fin 3)), (str ''T'', Num (Fin 28))]] \<rparr>"



text \<open>A boundary table that carries an attribute named \<open>PD_NAME\<close> of its own, and the
  two files of a run as a file system.\<close>

definition ex_geo_named :: "unit frame" where
  "ex_geo_named =
     \<lparr> columns = [FED_NUM, PD_NUM, PD_NAME, GEOMETRY],
       rows = [[(FED_NUM, Num (Fin 24030)), (PD_NUM, Num (Fin 100)),
                (PD_NAME, Str (str ''Nord'')), (GEOMETRY, Geom ())]] \<rparr>"

definition ex_fs :: "unit frame \<Rightarrow> pystr \<Rightarrow> unit frame option" where
  "ex_fs gdf path =
     (if path = str ''r.csv'' then Some ex_csv
      else if path = str ''g.geojson'' then Some gdf
      else None)"

text \<open>What the run on \<open>ex_csv\<close> and \<open>ex_geo\<close> returns.\<close>

definition ex_result :: "unit result" where
  "ex_result =
     \<lparr> res_district_number = Num (Fin 24030), res_district_name = Str (str ''Jonquiere''),
       res_candidates = [str ''A'', str ''B''],
       results_file = str ''r_election_results.geojson'',
       simple_file = str ''r_election_simple.geojson'' \<rparr>"

chapter \<open>Properties\<close>

section \<open>Properties of the schema resolver\<close>

lemma substr_in_iff_sublist: "substr_in p s \<longleftrightarrow> sublist p s"
  by (induction s) (auto simp: sublist_Cons_right)

lemma first_match_spec: "first_match pats cols = spec_resolve pats cols"
proof (induction pats)
  case Nil
  show ?case by (simp add: spec_resolve_def)
next
  case (Cons p ps)
  have eq: "substr_in p = sublist p" by (rule ext) (rule substr_in_iff_sublist)
  show ?case
  proof (cases "filter (\<lambda>col. substr_in p col) cols")
    case Nil
    then have "\<not> list_ex (sublist p) cols"
      by (auto simp: list_ex_iff filter_empty_conv substr_in_iff_sublist)
    with Nil Cons.IH show ?thesis by (simp add: spec_resolve_def)
  next
    case (Cons c cs)
    then have ex: "list_ex (sublist p) cols"
      unfolding eq by (metis filter_empty_conv list.distinct(1) list_ex_iff)
    from Cons have "List.find (sublist p) cols = Some c"
      unfolding eq by (induction cols) (auto split: if_splits)
    with Cons ex show ?thesis by (simp add: spec_resolve_def)
  qed
qed

lemma find_standard_warned:
  "snd (find_standard ps cols d w) =
     w @ map fst (filter (\<lambda>(k, pats). first_match pats cols = None) ps)"
  by (induction ps cols d w rule: find_standard.induct) (auto split: option.splits)

lemma find_standard_lookup_notin:
  "k \<notin> fst ` set ps \<Longrightarrow> map_of (fst (find_standard ps cols d w)) k = map_of d k"
  by (induction ps cols d w rule: find_standard.induct)
     (auto split: option.splits simp: update_conv')

lemma find_standard_lookup:
  "distinct (map fst ps) \<Longrightarrow> (k, pats) \<in> set ps \<Longrightarrow>
   map_of (fst (find_standard ps cols d w)) k =
     (case first_match pats cols of Some c \<Rightarrow> Some c | None \<Rightarrow> map_of d k)"
proof (induction ps cols d w rule: find_standard.induct)
  case (1 cols detected warned)
  then show ?case by simp
next
  case (2 key pats' rest cols detected warned)
  show ?case
  proof (cases "k = key")
    case True
    with 2 have "pats' = pats" by (auto simp: image_iff)
    from 2 True have "k \<notin> fst ` set rest" by auto
    then show ?thesis using True \<open>pats' = pats\<close>
      by (auto split: option.splits simp: find_standard_lookup_notin update_conv')
  next
    case False
    with 2 show ?thesis by (auto split: option.splits simp: update_conv')
  qed
qed

lemma first_match_in: "first_match pats cols = Some c \<Longrightarrow> c \<in> set cols"
  by (induction pats) (auto split: list.splits simp: filter_eq_Cons_iff)

lemma patterns_distinct: "distinct (map fst patterns)"
  by (simp add: patterns_def)

lemma find_standard_distinct:
  "distinct (map fst d) \<Longrightarrow> distinct (map fst (fst (find_standard ps cols d w)))"
  by (induction ps cols d w rule: find_standard.induct) (auto split: option.splits simp: distinct_update)

lemma patterns_total: "map_of patterns k \<noteq> None"
  by (cases k) (simp_all add: patterns_def)

lemma detect_standard_lookup:
  assumes "map_of patterns k = Some pats"
  shows "map_of (standard (detect_columns cols)) k = spec_resolve pats cols"
proof -
  from assms have "(k, pats) \<in> set patterns" by (rule map_of_SomeD)
  then have "map_of (fst (find_standard patterns cols [] [])) k =
      (case first_match pats cols of Some c \<Rightarrow> Some c | None \<Rightarrow> map_of [] k)"
    by (rule find_standard_lookup[OF patterns_distinct])
  then show ?thesis
    by (simp add: detect_columns_def split_def Let_def first_match_spec split: option.splits)
qed

lemma detect_warnings:
  "warnings (detect_columns cols) =
     map fst (filter (\<lambda>(k, pats). spec_resolve pats cols = None) patterns)"
  using find_standard_warned[of patterns cols "[]" "[]"]
  by (simp add: detect_columns_def split_def Let_def first_match_spec)

lemma detect_standard_cols:
  "set (map snd (standard (detect_columns cols))) = ran (map_of (standard (detect_columns cols)))"
proof -
  have "distinct (map fst (standard (detect_columns cols)))"
    using find_standard_distinct[of "[]" patterns cols "[]"]
    by (simp add: detect_columns_def split_def Let_def)
  then show ?thesis by (simp add: ran_distinct)
qed

lemma detect_candidates:
  "candidates (detect_columns cols) =
     candidate_filter (map snd (standard (detect_columns cols))) cols"
  by (simp add: detect_columns_def split_def Let_def)

lemma getitem_None: "map_of d k = None \<Longrightarrow> getitem d k = Inl (KeyError_field k)"
  by (simp add: getitem_def)

lemma getitem_Inl: "getitem d k = Inl e \<Longrightarrow> e = KeyError_field k \<and> map_of d k = None"
  by (auto simp: getitem_def split: option.splits)

lemma extract_columns_Inl:
  "extract_columns m = Inl e \<Longrightarrow> \<exists>k. e = KeyError_field k \<and> map_of (standard m) k = None"
  unfolding extract_columns_def bindE_def
  by (auto split: sum.splits dest: getitem_Inl)

lemma extract_columns_fails:
  assumes "map_of (standard m) k = None"
  shows "\<exists>e. extract_columns m = Inl e"
proof -
  have "getitem (standard m) k = Inl (KeyError_field k)" using assms by (rule getitem_None)
  then show ?thesis
    unfolding extract_columns_def bindE_def
    by (cases k) (auto split: sum.splits)
qed

lemma process_unmapped:
  assumes "extract_columns (detect_columns (columns csv)) = Inl e"
  shows "process_election_data repr reproject fn csv gfn gdf pfx =
           (Reading_csv fn # map Warning (warnings (detect_columns (columns csv))), Inl e)"
  using assms by (simp add: process_election_data_def Let_def seq_def say_def lift_def)

section \<open>C1: resolution of the standard fields\<close>

text \<open>
  Claim C1. For every table of headers and every standard field \<open>k\<close>, the resolver maps
  \<open>k\<close> to the header chosen by the rule "first fragment that occurs in any header, first
  header in which it occurs" (\<open>spec_resolve\<close> on the fragments of \<open>k\<close>). When no
  fragment occurs in any header, \<open>k\<close> is absent from the mapping, its warning is printed,
  reading \<open>column_mapping[k]\<close> raises the key error of \<open>k\<close>, and the whole run stops with
  the key error of an unmapped field after printing only the warnings, before any table
  is touched or any file written.
\<close>

theorem C1_schema_resolver:
  "\<exists>pats. map_of patterns k = Some pats
     \<and> map_of (standard (detect_columns (columns csv))) k = spec_resolve pats (columns csv)
     \<and> (spec_resolve pats (columns csv) = None \<longrightarrow>
          k \<in> set (warnings (detect_columns (columns csv)))
        \<and> getitem (standard (detect_columns (columns csv))) k = Inl (KeyError_field k)
        \<and> (\<exists>k'. map_of (standard (detect_columns (columns csv))) k' = None
              \<and> process_election_data repr reproject fn csv gfn gdf pfx =
                  (Reading_csv fn # map Warning (warnings (detect_columns (columns csv))),
                   Inl (KeyError_field k'))))"
proof -
  obtain pats where pats: "map_of patterns k = Some pats"
    using patterns_total[of k] by auto
  let ?m = "detect_columns (columns csv)"
  have look: "map_of (standard ?m) k = spec_resolve pats (columns csv)"
    using pats by (rule detect_standard_lookup)
  have fail: "k \<in> set (warnings ?m)
        \<and> getitem (standard ?m) k = Inl (KeyError_field k)
        \<and> (\<exists>k'. map_of (standard ?m) k' = None
              \<and> process_election_data repr reproject fn csv gfn gdf pfx =
                  (Reading_csv fn # map Warning (warnings ?m), Inl (KeyError_field k')))"
    if none: "spec_resolve pats (columns csv) = None"
  proof (intro conjI)
    from pats have "(k, pats) \<in> set patterns" by (rule map_of_SomeD)
    with none show "k \<in> set (warnings ?m)"
      by (force simp: detect_warnings)
    from none look have unm: "map_of (standard ?m) k = None" by simp
    then show "getitem (standard ?m) k = Inl (KeyError_field k)" by (rule getitem_None)
    from unm obtain e where e: "extract_columns ?m = Inl e"
      using extract_columns_fails by blast
    then obtain k' where "e = KeyError_field k'" "map_of (standard ?m) k' = None"
      using extract_columns_Inl by blast
    with e show "\<exists>k'. map_of (standard ?m) k' = None
              \<and> process_election_data repr reproject fn csv gfn gdf pfx =
                  (Reading_csv fn # map Warning (warnings ?m), Inl (KeyError_field k'))"
      using process_unmapped[of csv e repr reproject fn gfn gdf pfx] by blast
  qed
  show ?thesis
  proof (intro exI[of _ pats] conjI impI)
    show "map_of patterns k = Some pats" by (rule pats)
    show "map_of (standard ?m) k = spec_resolve pats (columns csv)" by (rule look)
  qed (use fail in simp_all)
qed

theorem C1_schema_resolver_witness:
  "map_of (standard (detect_columns ex_headers_fr)) rejected =
     Some (str ''Bulletins rejet'' @ [233] @ str ''s'')
   \<and> electors \<in> set (warnings (detect_columns (columns ex_csv_short)))
   \<and> getitem (standard (detect_columns (columns ex_csv_short))) electors =
       Inl (KeyError_field electors)
   \<and> process_election_data ex_repr Some (str ''r.csv'') ex_csv_short (str ''g.geojson'')
       ex_geo None =
       ([Reading_csv (str ''r.csv''), Warning electors], Inl (KeyError_field electors))"
proof -
  let ?fr = "\<lparr> columns = ex_headers_fr, rows = [] \<rparr> :: unit frame"
  let ?rej = "[str ''Rejected Ballots'', str ''Bulletins rejet'' @ [233] @ str ''s'']"
  let ?el = "[str ''Electors'', [201] @ str ''lecteurs'']"
  have "map_of patterns rejected = Some ?rej" by (simp add: patterns_def)
  with C1_schema_resolver[of rejected ?fr]
  have "map_of (standard (detect_columns ex_headers_fr)) rejected =
          spec_resolve ?rej ex_headers_fr"
    by auto
  moreover have "spec_resolve ?rej ex_headers_fr =
                   Some (str ''Bulletins rejet'' @ [233] @ str ''s'')"
    by code_simp
  ultimately have a: "map_of (standard (detect_columns ex_headers_fr)) rejected =
     Some (str ''Bulletins rejet'' @ [233] @ str ''s'')"
    by simp
  have p: "map_of patterns electors = Some ?el" by (simp add: patterns_def)
  have n: "spec_resolve ?el (columns ex_csv_short) = None" by code_simp
  from C1_schema_resolver[of electors ex_csv_short] p n
  have b: "electors \<in> set (warnings (detect_columns (columns ex_csv_short)))
     \<and> getitem (standard (detect_columns (columns ex_csv_short))) electors =
         Inl (KeyError_field electors)"
    by auto
  have c: "process_election_data ex_repr Some (str ''r.csv'') ex_csv_short (str ''g.geojson'')
       ex_geo None =
       ([Reading_csv (str ''r.csv''), Warning electors], Inl (KeyError_field electors))"
    by code_simp
  from a b c show ?thesis by simp
qed

section \<open>C2: the candidate columns\<close>

text \<open>
  Claim C2. For every list of headers, the candidate columns are the headers, in header
  order, that are not the value of any standard field in the mapping and in which none
  of \<open>rejected\<close>, \<open>total\<close>, \<open>elector\<close>, \<open>number\<close>, \<open>name\<close>, \<open>division\<close> occurs
  (case-sensitively, as a contiguous run).
\<close>

theorem C2_candidate_columns:
  "candidates (detect_columns cols) =
     filter (\<lambda>c. c \<notin> ran (map_of (standard (detect_columns cols)))
                \<and> (\<forall>x \<in> set [str ''rejected'', str ''total'', str ''elector'', str ''number'',
                                str ''name'', str ''division'']. \<not> sublist x c)) cols"
  unfolding detect_candidates candidate_filter_def detect_standard_cols[symmetric]
  by (simp add: list_ex_iff substr_in_iff_sublist stop_list_def)

theorem C2_candidate_columns_witness:
  "filter (\<lambda>c. c \<notin> ran (map_of (standard (detect_columns (ex_headers @ [str ''Void name'']))))
                \<and> (\<forall>x \<in> set [str ''rejected'', str ''total'', str ''elector'', str ''number'',
                                str ''name'', str ''division'']. \<not> sublist x c))
          (ex_headers @ [str ''Void name'']) = [str ''A'', str ''B'']"
proof -
  have "candidates (detect_columns (ex_headers @ [str ''Void name''])) = [str ''A'', str ''B'']"
    by code_simp
  with C2_candidate_columns[of "ex_headers @ [str ''Void name'']"] show ?thesis by simp
qed








lemma key_of_assign: "key_of c (AList.update c (key_cell k) r) = k"
  by (simp add: key_of_def cell_at_def update_conv' key_cell_def)

lemma map_result_Inr:
  "map_result f xs = Inr ys \<Longrightarrow> length ys = length xs \<and> (\<forall>i<length xs. f (xs ! i) = Inr (ys ! i))"
proof (induction xs arbitrary: ys)
  case Nil then show ?case by simp
next
  case (Cons x xs)
  then obtain y ys' where y: "f x = Inr y" "map_result f xs = Inr ys'" "ys = y # ys'"
    by (auto split: sum.splits)
  with Cons.IH[of ys'] show ?case by (auto simp: nth_Cons split: nat.splits)
qed

lemma add_pd_num_rows:
  assumes "add_pd_num repr col df = Inr df'"
  shows "length (rows df') = length (rows df) \<and>
         (\<forall>i<length (rows df). \<exists>k. pd_num_value repr (cell_at (rows df ! i) col) = Inr k
              \<and> rows df' ! i = AList.update PD_NUM (key_cell k) (rows df ! i))"
proof -
  from assms obtain ks where ks: "map_result (\<lambda>r. pd_num_value repr (cell_at r col)) (rows df) = Inr ks"
    and df': "df' = assign PD_NUM (map key_cell ks) df"
    by (auto simp: add_pd_num_def bindE_def split: sum.splits)
  from map_result_Inr[OF ks] have len: "length ks = length (rows df)"
    and each: "\<forall>i<length (rows df). pd_num_value repr (cell_at (rows df ! i) col) = Inr (ks ! i)"
    by auto
  show ?thesis using len each by (auto simp: df' assign_def)
qed

section \<open>C5: coercion of the polling-division id\<close>

lemmas parse_defs = pd_num_value_def astype_str_def strip_def py_isspace_def str_def
  to_numeric_str_def parse_decimal_def parse_special_def c_isspace_def take_sign_def
  is_digit_def digits_value_def parse_exponent_def signed_def fillna0_def astype_int_def lower_def








section \<open>Rows of the cleaned table and of the aggregate\<close>

lemma cell_at_update: "cell_at (AList.update c v r) c' = (if c' = c then v else cell_at r c')"
  by (simp add: cell_at_def update_conv')

lemma num_at_update: "num_at (AList.update c (Num x) r) c' = (if c' = c then x else num_at r c')"
  by (simp add: num_at_def cell_at_update)

lemma rows_set_column: "rows (set_column c f df) = map (\<lambda>r. AList.update c (f r) r) (rows df)"
  by (simp add: set_column_def)

lemma rows_filter_rows: "rows (filter_rows P df) = filter P (rows df)"
  by (simp add: filter_rows_def)

lemma is_combined_iff:
  "is_combined repr col r \<longleftrightarrow> sublist (str ''Combined'') (astype_str repr (cell_at r col))"
  by (simp add: is_combined_def substr_in_iff_sublist)

lemma rows_filter_combined:
  "rows (filter_combined_rows repr df col) =
     filter (\<lambda>r. \<not> sublist (str ''Combined'') (astype_str repr (cell_at r col))) (rows df)"
  by (simp add: filter_combined_rows_def rows_filter_rows is_combined_iff)

lemma rows_convert_numeric:
  "rows (convert_numeric ncols df) = map (coerce_row ncols) (rows df)"
proof (induction ncols rule: rev_induct)
  case Nil
  show ?case by (simp add: convert_numeric_def coerce_row_def)
next
  case (snoc c ncols)
  have "convert_numeric (ncols @ [c]) df =
          set_column c (\<lambda>r. Num (to_numeric (cell_at r c))) (convert_numeric ncols df)"
    by (simp add: convert_numeric_def)
  then show ?case using snoc by (simp add: rows_set_column coerce_row_def)
qed

lemma to_numeric_Num: "to_numeric (Num x) = x"
  by (simp add: to_numeric_def)

lemma cell_at_coerce_row:
  "cell_at (coerce_row ncols r) c =
     (if c \<in> set ncols then Num (to_numeric (cell_at r c)) else cell_at r c)"
proof (induction ncols rule: rev_induct)
  case Nil
  show ?case by (simp add: coerce_row_def)
next
  case (snoc x ncols)
  have "coerce_row (ncols @ [x]) r =
          AList.update x (Num (to_numeric (cell_at (coerce_row ncols r) x))) (coerce_row ncols r)"
    by (simp add: coerce_row_def)
  then show ?case using snoc by (auto simp: cell_at_update to_numeric_Num)
qed

lemma num_at_coerce_row:
  "c \<in> set ncols \<Longrightarrow> num_at (coerce_row ncols r) c = to_numeric (cell_at r c)"
  by (simp add: num_at_def cell_at_coerce_row)


lemma csv_clean_rows:
  assumes "csv_clean_of repr csv cs = Inr clean"
  shows "\<exists>first. iloc0 (candidate_cols cs) = Inr first \<and>
          rows clean =
            map (\<lambda>r. AList.update PD_NUM (key_cell (projr (row_key repr cs r)))
                        (coerce_row (numeric_cols cs) r))
                (filter (\<lambda>r. \<not> is_combined repr first r) (rows csv)) \<and>
          (\<forall>r \<in> set (filter (\<lambda>r. \<not> is_combined repr first r) (rows csv)).
              \<exists>k. row_key repr cs r = Inr k)"
proof -
  from assms obtain first where first: "iloc0 (candidate_cols cs) = Inr first"
    and add: "add_pd_num repr (pd_num_col cs)
               (convert_numeric (numeric_cols cs) (filter_combined_rows repr csv first)) = Inr clean"
    by (auto simp: csv_clean_of_def bindE_def split: sum.splits)
  let ?kept = "filter (\<lambda>r. \<not> is_combined repr first r) (rows csv)"
  let ?conv = "convert_numeric (numeric_cols cs) (filter_combined_rows repr csv first)"
  have conv: "rows ?conv = map (coerce_row (numeric_cols cs)) ?kept"
    by (simp add: rows_convert_numeric filter_combined_rows_def rows_filter_rows)
  from add_pd_num_rows[OF add] have len: "length (rows clean) = length ?kept"
    and each: "\<forall>i<length ?kept. \<exists>k. pd_num_value repr (cell_at (rows ?conv ! i) (pd_num_col cs)) = Inr k
              \<and> rows clean ! i = AList.update PD_NUM (key_cell k) (rows ?conv ! i)"
    by (simp_all add: conv)
  have keys: "\<forall>r \<in> set ?kept. \<exists>k. row_key repr cs r = Inr k"
  proof
    fix r assume "r \<in> set ?kept"
    then obtain i where "i < length ?kept" "?kept ! i = r" by (metis in_set_conv_nth)
    with each show "\<exists>k. row_key repr cs r = Inr k"
      by (auto simp: row_key_def conv)
  qed
  have "rows clean = map (\<lambda>r. AList.update PD_NUM (key_cell (projr (row_key repr cs r)))
                        (coerce_row (numeric_cols cs) r)) ?kept"
  proof (rule nth_equalityI)
    show "length (rows clean) = length (map (\<lambda>r. AList.update PD_NUM (key_cell (projr (row_key repr cs r)))
                        (coerce_row (numeric_cols cs) r)) ?kept)" using len by simp
    fix i assume "i < length (rows clean)"
    then have i: "i < length ?kept" using len by simp
    with each obtain k where k: "pd_num_value repr (cell_at (rows ?conv ! i) (pd_num_col cs)) = Inr k"
      "rows clean ! i = AList.update PD_NUM (key_cell k) (rows ?conv ! i)" by blast
    from k(1) i have "row_key repr cs (?kept ! i) = Inr k" by (simp add: row_key_def conv)
    with k(2) i show "rows clean ! i = map (\<lambda>r. AList.update PD_NUM (key_cell (projr (row_key repr cs r)))
                        (coerce_row (numeric_cols cs) r)) ?kept ! i"
      by (simp add: conv)
  qed
  with first keys show ?thesis by blast
qed


lemma map_of_tabulate: "map_of (map (\<lambda>c. (c, f c)) cs) c = (if c \<in> set cs then Some (f c) else None)"
  by (induction cs) auto

lemma key_of_key_cell_row: "key_of by ((by, key_cell k) # rest) = k"
  by (simp add: key_of_def cell_at_def key_cell_def)

lemma set_group_keys: "set (group_keys by df) = key_of by ` set (rows df)"
  by (simp add: group_keys_def)

lemma groupby_sum_rows:
  assumes "groupby_sum by cs df = Inr g"
  shows "by \<notin> set cs"
    and "map (key_of by) (rows g) = sort (remdups (map (key_of by) (rows df)))"
    and "row \<in> set (rows g) \<Longrightarrow> c \<in> set cs \<Longrightarrow>
           cell_at row c =
             Num (sum_skipna (map (\<lambda>r. num_at r c)
                                  (filter (\<lambda>r. key_of by r = key_of by row) (rows df))))"
    and "row \<in> set (rows g) \<Longrightarrow> key_of by row \<in> key_of by ` set (rows df)"
    and "row \<in> set (rows g) \<Longrightarrow> cell_at row by = key_cell (key_of by row)"
proof -
  from assms show nin: "by \<notin> set cs" by (auto simp: groupby_sum_def split: if_splits)
  from assms nin have g: "rows g = map (\<lambda>k. (by, key_cell k) #
                                  map (\<lambda>c. (c, Num (sum_skipna
                                                (map (\<lambda>r. num_at r c) (group_rows by df k)))))
                                      cs)
                            (group_keys by df)"
    by (auto simp: groupby_sum_def)
  show "map (key_of by) (rows g) = sort (remdups (map (key_of by) (rows df)))"
    by (simp add: g key_of_key_cell_row comp_def group_keys_def)
  {
    assume "row \<in> set (rows g)"
    then obtain k where k: "k \<in> set (group_keys by df)"
      and row: "row = (by, key_cell k) # map (\<lambda>c. (c, Num (sum_skipna
                                                (map (\<lambda>r. num_at r c) (group_rows by df k))))) cs"
      by (auto simp: g)
    have kk: "key_of by row = k" by (simp add: row key_of_key_cell_row)
    show "key_of by row \<in> key_of by ` set (rows df)" using k kk set_group_keys by metis
    show "cell_at row by = key_cell (key_of by row)" using kk by (simp add: row cell_at_def)
    assume c: "c \<in> set cs"
    with nin have "c \<noteq> by" by auto
    then show "cell_at row c =
             Num (sum_skipna (map (\<lambda>r. num_at r c)
                                  (filter (\<lambda>r. key_of by r = key_of by row) (rows df))))"
      using c unfolding kk by (simp add: row cell_at_def map_of_tabulate group_rows_def)
  }
qed



section \<open>Evaluation of the example tables\<close>

lemmas label_defs = PD_NUM_def PD_NAME_def FED_NUM_def GEOMETRY_def LEADING_def LEADING_PCT_def
  pct_name_def str_def

lemmas table_defs = cell_at_def num_at_def set_column_def filter_rows_def assign_def
  rename_columns_def key_of_def key_cell_def group_keys_def group_rows_def first_valid_def
  sum_skipna_def groupby_first_def groupby_sum_def suffixed_def relabel_def merge_def
  select_columns_def get_column_def unique_def nunique_def reproject_cell_def to_crs_def

lemmas script_defs = bindE_def getitem_def numeric_cols_def iloc0_def is_combined_def
  filter_combined_rows_def convert_numeric_def add_pd_num_def csv_clean_of_def percentage_def
  add_percentages_def py_max_def find_leading_candidate_def leading_pct_of_def add_leading_def
  polling_division_names_def polling_division_results_def aggregate_def to_numeric_def

lemmas ex_defs = ex_headers_def ex_repr_def ex_cols_def ex_csv_def ex_clean_def
  ex_sum_labels_def ex_summed_def ex_result_labels_def ex_results_def

lemma ex_clean_eval: "csv_clean_of ex_repr ex_csv ex_cols = Inr ex_clean"
  by (simp add: ex_defs script_defs table_defs parse_defs label_defs)

lemma ex_summed_eval: "groupby_sum PD_NUM (numeric_cols ex_cols) ex_clean = Inr ex_summed"
  by (simp add: ex_defs script_defs table_defs label_defs)

lemma ex_results_eval: "polling_division_results ex_cols ex_clean = Inr ex_results"
  by (simp add: ex_defs script_defs table_defs label_defs)

lemma ex_aggregate_eval: "aggregate ex_repr ex_csv ex_cols = Inr ex_results"
  by (simp add: aggregate_def ex_clean_eval ex_results_eval bindE_def)

lemma ex_columns_eval: "extract_columns (detect_columns (columns ex_csv)) = Inr ex_cols"
  by code_simp

section \<open>C3: rows of combined results never reach the aggregation\<close>

lemma summed_over_kept:
  assumes clean: "csv_clean_of repr csv cs = Inr clean"
    and g: "groupby_sum PD_NUM (numeric_cols cs) clean = Inr summed"
    and row: "row \<in> set (rows summed)" and c: "c \<in> set (numeric_cols cs)"
  shows "cell_at row c =
           Num (sum_skipna (map (\<lambda>r. to_numeric (cell_at r c))
                  (filter (\<lambda>r. \<not> sublist (str ''Combined'')
                                   (astype_str repr (cell_at r (hd (candidate_cols cs))))
                               \<and> row_key repr cs r = Inr (key_of PD_NUM row))
                          (rows csv))))"
proof -
  from csv_clean_rows[OF clean] obtain first where
    first: "iloc0 (candidate_cols cs) = Inr first"
    and rws: "rows clean =
            map (\<lambda>r. AList.update PD_NUM (key_cell (projr (row_key repr cs r)))
                        (coerce_row (numeric_cols cs) r))
                (filter (\<lambda>r. \<not> is_combined repr first r) (rows csv))"
    and keys: "\<forall>r \<in> set (filter (\<lambda>r. \<not> is_combined repr first r) (rows csv)).
              \<exists>k. row_key repr cs r = Inr k"
    by blast
  from first have hd: "hd (candidate_cols cs) = first"
    by (auto simp: iloc0_def split: list.splits)
  let ?K = "key_of PD_NUM row"
  let ?h = "\<lambda>r. AList.update PD_NUM (key_cell (projr (row_key repr cs r)))
                        (coerce_row (numeric_cols cs) r)"
  let ?kept = "filter (\<lambda>r. \<not> is_combined repr first r) (rows csv)"
  from groupby_sum_rows(1)[OF g] c have cne: "c \<noteq> PD_NUM" by auto
  have val: "num_at (?h r) c = to_numeric (cell_at r c)" for r
    using cne c by (simp add: num_at_def cell_at_update cell_at_coerce_row)
  have key: "key_of PD_NUM (?h r) = projr (row_key repr cs r)" for r
    by (simp add: key_of_assign)
  have "cell_at row c =
          Num (sum_skipna (map (\<lambda>r. num_at r c) (filter (\<lambda>r. key_of PD_NUM r = ?K) (rows clean))))"
    by (rule groupby_sum_rows(3)[OF g row c])
  also have "filter (\<lambda>r. key_of PD_NUM r = ?K) (rows clean) =
               map ?h (filter (\<lambda>r. projr (row_key repr cs r) = ?K) ?kept)"
    by (simp add: rws filter_map comp_def key)
  also have "filter (\<lambda>r. projr (row_key repr cs r) = ?K) ?kept =
               filter (\<lambda>r. row_key repr cs r = Inr ?K) ?kept"
    using keys by (intro filter_cong refl) auto
  also have "\<dots> = filter (\<lambda>r. \<not> sublist (str ''Combined'')
                                   (astype_str repr (cell_at r (hd (candidate_cols cs))))
                               \<and> row_key repr cs r = Inr ?K) (rows csv)"
    by (simp add: hd is_combined_iff)
  finally show ?thesis by (simp add: comp_def val)
qed

text \<open>
  Claim C3. The row cleaner keeps, in order, exactly the rows whose text in the given
  column does not contain \<open>Combined\<close>. Whenever cleaning, coercion and summation succeed,
  every sum of a numeric column in the aggregate of a division is the sum, missing values
  skipped, of the coerced values of that column over the rows of the raw table that do
  not contain \<open>Combined\<close> in the first candidate column and whose id coerces to that
  division: no dropped row contributes. For the example table, whose division 100 has a
  \<open>Combined\<close> row next to rows with 5 and 7 votes for candidate \<open>A\<close> (and 100, 3 and 4
  for \<open>B\<close>), the aggregate of division 100 is 12 for \<open>A\<close> and 7 for \<open>B\<close>.
\<close>

theorem C3_combined_rows_excluded:
  "rows (filter_combined_rows repr df col) =
     filter (\<lambda>r. \<not> sublist (str ''Combined'') (astype_str repr (cell_at r col))) (rows df)
   \<and> (csv_clean_of repr csv cs = Inr clean \<and>
      groupby_sum PD_NUM (numeric_cols cs) clean = Inr summed \<longrightarrow>
        (\<forall>row \<in> set (rows summed). \<forall>c \<in> set (numeric_cols cs).
           cell_at row c =
             Num (sum_skipna (map (\<lambda>r. to_numeric (cell_at r c))
                    (filter (\<lambda>r. \<not> sublist (str ''Combined'')
                                     (astype_str repr (cell_at r (hd (candidate_cols cs))))
                                 \<and> row_key repr cs r = Inr (key_of PD_NUM row))
                            (rows csv))))))
   \<and> extract_columns (detect_columns (columns ex_csv)) = Inr ex_cols
   \<and> (case aggregate ex_repr ex_csv ex_cols of
        Inl e \<Rightarrow> []
      | Inr res \<Rightarrow> map (\<lambda>r. (cell_at r PD_NUM, cell_at r (str ''A''), cell_at r (str ''B'')))
                       (rows res))
      = [(Num (Fin 100), Num (Fin 12), Num (Fin 7)), (Num (Fin 101), Num (Fin 0), Num (Fin 6))]"
proof (intro conjI impI ballI)
  show "rows (filter_combined_rows repr df col) =
     filter (\<lambda>r. \<not> sublist (str ''Combined'') (astype_str repr (cell_at r col))) (rows df)"
    by (rule rows_filter_combined)
  show "extract_columns (detect_columns (columns ex_csv)) = Inr ex_cols"
    by (rule ex_columns_eval)
  show "(case aggregate ex_repr ex_csv ex_cols of
        Inl e \<Rightarrow> []
      | Inr res \<Rightarrow> map (\<lambda>r. (cell_at r PD_NUM, cell_at r (str ''A''), cell_at r (str ''B'')))
                       (rows res))
      = [(Num (Fin 100), Num (Fin 12), Num (Fin 7)), (Num (Fin 101), Num (Fin 0), Num (Fin 6))]"
    unfolding ex_aggregate_eval
    by (simp add: ex_results_def ex_result_labels_def ex_sum_labels_def cell_at_def label_defs)
next
  fix row c
  assume "csv_clean_of repr csv cs = Inr clean \<and>
      groupby_sum PD_NUM (numeric_cols cs) clean = Inr summed"
    and "row \<in> set (rows summed)" and "c \<in> set (numeric_cols cs)"
  then show "cell_at row c =
             Num (sum_skipna (map (\<lambda>r. to_numeric (cell_at r c))
                    (filter (\<lambda>r. \<not> sublist (str ''Combined'')
                                     (astype_str repr (cell_at r (hd (candidate_cols cs))))
                                 \<and> row_key repr cs r = Inr (key_of PD_NUM row))
                            (rows csv))))"
    using summed_over_kept by blast
qed

theorem C3_combined_rows_excluded_witness:
  "sum_skipna (map (\<lambda>r. to_numeric (cell_at r (str ''A'')))
      (filter (\<lambda>r. \<not> sublist (str ''Combined'')
                       (astype_str ex_repr (cell_at r (hd (candidate_cols ex_cols))))
                   \<and> row_key ex_repr ex_cols r = Inr 100)
              (rows ex_csv))) = Fin 12"
proof -
  let ?row = "hd (rows ex_summed)"
  have r: "?row \<in> set (rows ex_summed)" by (simp add: ex_summed_def)
  have c: "str ''A'' \<in> set (numeric_cols ex_cols)" by (simp add: numeric_cols_def ex_cols_def)
  have k: "key_of PD_NUM ?row = 100"
    by (simp add: ex_summed_def ex_sum_labels_def key_of_def cell_at_def label_defs)
  have v: "cell_at ?row (str ''A'') = Num (Fin 12)"
    by (simp add: ex_summed_def ex_sum_labels_def cell_at_def label_defs)
  from C3_combined_rows_excluded[where repr = ex_repr and csv = ex_csv and cs = ex_cols
      and clean = ex_clean and summed = ex_summed] ex_clean_eval ex_summed_eval
  have "\<forall>row \<in> set (rows ex_summed). \<forall>c \<in> set (numeric_cols ex_cols).
           cell_at row c =
             Num (sum_skipna (map (\<lambda>r. to_numeric (cell_at r c))
                    (filter (\<lambda>r. \<not> sublist (str ''Combined'')
                                     (astype_str ex_repr (cell_at r (hd (candidate_cols ex_cols))))
                                 \<and> row_key ex_repr ex_cols r = Inr (key_of PD_NUM row))
                            (rows ex_csv))))"
    by blast
  with r c have "cell_at ?row (str ''A'') =
             Num (sum_skipna (map (\<lambda>r. to_numeric (cell_at r (str ''A'')))
                    (filter (\<lambda>r. \<not> sublist (str ''Combined'')
                                     (astype_str ex_repr (cell_at r (hd (candidate_cols ex_cols))))
                                 \<and> row_key ex_repr ex_cols r = Inr (key_of PD_NUM ?row))
                            (rows ex_csv))))"
    by blast
  then show ?thesis unfolding k v by simp
qed

section \<open>C10: rows with a missing candidate cell are kept\<close>




section \<open>C6: sums and names of a group\<close>



lemma label_distinct: "PD_NAME \<noteq> PD_NUM" "LEADING \<noteq> PD_NUM" "LEADING_PCT \<noteq> PD_NUM"
  "LEADING \<noteq> LEADING_PCT" "PD_NAME \<noteq> LEADING" "PD_NAME \<noteq> LEADING_PCT"
  by (simp_all add: label_defs)

lemma names_rows:
  "rows (polling_division_names name_col clean) =
     map (\<lambda>k. [(PD_NUM, key_cell k),
               (PD_NAME, first_valid (map (\<lambda>r. cell_at r name_col)
                                          (filter (\<lambda>r. key_of PD_NUM r = k) (rows clean))))])
         (group_keys PD_NUM clean)"
  by (simp add: polling_division_names_def rename_columns_def groupby_first_def group_rows_def comp_def)




section \<open>Percentages and the leading candidate\<close>

lemma rows_add_percentages:
  "rows (add_percentages cands t df) = map (pct_row cands t) (rows df)"
proof (induction cands rule: rev_induct)
  case Nil
  show ?case by (simp add: add_percentages_def pct_row_def)
next
  case (snoc c cands)
  have "add_percentages (cands @ [c]) t df =
          set_column (pct_name c) (\<lambda>r. Num (percentage (num_at r c) (num_at r t)))
            (add_percentages cands t df)"
    by (simp add: add_percentages_def)
  then show ?case using snoc by (simp add: rows_set_column pct_row_def)
qed

lemma pct_row_snoc:
  "pct_row (cands @ [c]) t r =
     AList.update (pct_name c)
       (Num (percentage (num_at (pct_row cands t r) c) (num_at (pct_row cands t r) t)))
       (pct_row cands t r)"
  by (simp add: pct_row_def)

lemma pct_row_other:
  "l \<notin> pct_name ` set cands \<Longrightarrow> cell_at (pct_row cands t r) l = cell_at r l"
proof (induction cands rule: rev_induct)
  case Nil
  show ?case by (simp add: pct_row_def)
next
  case (snoc c cands)
  then show ?case by (auto simp: pct_row_snoc cell_at_update)
qed

lemma pct_name_inj: "pct_name a = pct_name b \<longleftrightarrow> a = b"
  by (simp add: pct_name_def)

lemma pct_row_value:
  assumes "c \<in> set cands" "c \<notin> pct_name ` set cands" "t \<notin> pct_name ` set cands"
  shows "cell_at (pct_row cands t r) (pct_name c) =
           Num (percentage (num_at r c) (num_at r t))"
  using assms
proof (induction cands rule: rev_induct)
  case Nil
  then show ?case by simp
next
  case (snoc x cands)
  from snoc.prems have c: "c \<notin> pct_name ` set cands" and t: "t \<notin> pct_name ` set cands"
    by auto
  show ?case
  proof (cases "x = c")
    case True
    then show ?thesis
      using c t by (simp add: pct_row_snoc cell_at_update num_at_def pct_row_other)
  next
    case False
    with snoc.prems have "c \<in> set cands" by auto
    with snoc.IH c t False show ?thesis
      by (simp add: pct_row_snoc cell_at_update pct_name_inj)
  qed
qed

lemma percentage_zero_total: "percentage x (Fin 0) \<noteq> Fin q"
  by (cases x) (auto simp: percentage_def)








lemma dict_snoc:
  "foldl (\<lambda>d c. AList.update c (v c) d) d0 (cs @ [x]) =
     AList.update x (v x) (foldl (\<lambda>d c. AList.update c (v c) d) d0 cs)"
  by simp





section \<open>C4: the leading candidate\<close>






section \<open>C8: percentages\<close>

text \<open>
  Claim C8 says that the percentage is undefined (NaN) whenever the summed total is zero.
  The script divides with the arithmetic of pandas, where a positive number divided by
  zero is infinite: division 101 of the example has 6 votes for B and a total of 0 (its
  only total cell is not a number), and the percentage of B is \<open>+inf\<close>, not NaN.
\<close>

theorem C8_counterexample:
  "aggregate ex_repr ex_csv ex_cols = Inr ex_results
   \<and> num_at (rows ex_results ! 1) (str ''B'') = Fin 6
   \<and> num_at (rows ex_results ! 1) (str ''Total Votes'') = Fin 0
   \<and> num_at (rows ex_results ! 1) (pct_name (str ''B'')) = PInf
   \<and> num_at (rows ex_results ! 1) (pct_name (str ''B'')) \<noteq> NaN"
  by (simp add: ex_aggregate_eval ex_results_def ex_result_labels_def ex_sum_labels_def
        num_at_def cell_at_def label_defs)

text \<open>
  Claim C8, amended. The percentage loop keeps the rows; for a candidate \<open>c\<close>, when
  neither \<open>c\<close> nor the total column is named like a percentage column, the cell under
  \<open>c_pct\<close> of every row is \<open>percentage votes total\<close> of that row's cells. With finite
  votes and a finite total other than zero this is \<open>votes / total * 100\<close>. With a total
  of zero it is NaN when the votes are zero, \<open>+inf\<close> when they are positive and \<open>-inf\<close>
  when they are negative; whatever the votes, it is never a finite number, so never 0.
\<close>

theorem C8_percentages:
  "length (rows (add_percentages cands t df)) = length (rows df)
   \<and> (c \<in> set cands \<and> c \<notin> pct_name ` set cands \<and> t \<notin> pct_name ` set cands \<longrightarrow>
        (\<forall>i < length (rows df).
           cell_at (rows (add_percentages cands t df) ! i) (pct_name c) =
             Num (percentage (num_at (rows df ! i) c) (num_at (rows df ! i) t))))
   \<and> (d \<noteq> 0 \<longrightarrow> percentage (Fin v) (Fin d) = Fin (v / d * 100))
   \<and> percentage (Fin v) (Fin 0) = (if v = 0 then NaN else if 0 < v then PInf else NInf)
   \<and> (\<forall>q. percentage x (Fin 0) \<noteq> Fin q)"
proof (intro conjI impI allI)
  show "length (rows (add_percentages cands t df)) = length (rows df)"
    by (simp add: rows_add_percentages)
  show "percentage (Fin v) (Fin d) = Fin (v / d * 100)" if "d \<noteq> 0"
    using that by (simp add: percentage_def)
  show "percentage (Fin v) (Fin 0) = (if v = 0 then NaN else if 0 < v then PInf else NInf)"
    by (simp add: percentage_def)
  show "percentage x (Fin 0) \<noteq> Fin q" for q by (rule percentage_zero_total)
next
  fix i
  assume "c \<in> set cands \<and> c \<notin> pct_name ` set cands \<and> t \<notin> pct_name ` set cands"
    and "i < length (rows df)"
  then show "cell_at (rows (add_percentages cands t df) ! i) (pct_name c) =
             Num (percentage (num_at (rows df ! i) c) (num_at (rows df ! i) t))"
    by (simp add: rows_add_percentages pct_row_value)
qed

theorem C8_percentages_witness:
  "cell_at (rows (add_percentages [str ''A'', str ''B'', str ''C''] (str ''T'') ex_votes) ! 0)
     (pct_name (str ''B'')) = Num (Fin (375 / 7))"
proof -
  let ?cands = "[str ''A'', str ''B'', str ''C'']"
  have h: "str ''B'' \<in> set ?cands \<and> str ''B'' \<notin> pct_name ` set ?cands
           \<and> str ''T'' \<notin> pct_name ` set ?cands"
    by (simp add: label_defs)
  have i: "0 < length (rows ex_votes)" by (simp add: ex_votes_def)
  have v: "num_at (rows ex_votes ! 0) (str ''B'') = Fin 15"
    "num_at (rows ex_votes ! 0) (str ''T'') = Fin 28"
    by (simp_all add: ex_votes_def num_at_def cell_at_def label_defs)
  have nz: "(28 :: rat) \<noteq> 0" by simp
  from C8_percentages[where cands = ?cands and c = "str ''B''" and t = "str ''T''"
      and df = ex_votes and d = 28 and v = 15] h i nz
  have "cell_at (rows (add_percentages ?cands (str ''T'') ex_votes) ! 0) (pct_name (str ''B'')) =
          Num (percentage (num_at (rows ex_votes ! 0) (str ''B''))
                          (num_at (rows ex_votes ! 0) (str ''T'')))"
    and "percentage (Fin 15) (Fin 28) = Fin (15 / 28 * 100)"
    by blast+
  then show ?thesis unfolding v by simp
qed

section \<open>Steps of a run\<close>

lemma seq_say: "seq (say evs) f = (evs @ fst (f ()), snd (f ()))"
  by (simp add: seq_def say_def split: prod.splits sum.splits)

lemma seq_lift: "seq (lift r) f = (case r of Inl e \<Rightarrow> ([], Inl e) | Inr x \<Rightarrow> f x)"
  by (simp add: seq_def lift_def split: prod.splits sum.splits)

lemma fst_lift: "fst (lift r) = []" and snd_lift: "snd (lift r) = r"
  by (simp_all add: lift_def)

lemma seq_Inr:
  "seq m f = (evs, Inr y) \<longleftrightarrow>
     (\<exists>out x out'. m = (out, Inr x) \<and> f x = (out', Inr y) \<and> evs = out @ out')"
  by (cases m) (auto simp: seq_def split: sum.splits prod.splits)

lemma seq_Inl:
  "seq m f = (evs, Inl e) \<longleftrightarrow>
     (m = (evs, Inl e)) \<or>
     (\<exists>out x out'. m = (out, Inr x) \<and> f x = (out', Inl e) \<and> evs = out @ out')"
  by (cases m) (auto simp: seq_def split: sum.splits prod.splits)

lemma write_outputs_cases:
  "write_outputs pre cs merged =
     (case select_columns (simple_columns cs) merged of
        Inl e \<Rightarrow> ([Write_file (pre @ str ''_election_results.geojson'') merged], Inl e)
      | Inr simple \<Rightarrow>
          (case select_columns [PD_NUM, PD_NAME] merged of
             Inl e \<Rightarrow> ([Write_file (pre @ str ''_election_results.geojson'') merged,
                         Write_file (pre @ str ''_election_simple.geojson'') simple,
                         Processing_complete (pre @ str ''_election_results.geojson'')
                           (pre @ str ''_election_simple.geojson'')], Inl e)
           | Inr sample \<Rightarrow>
               ([Write_file (pre @ str ''_election_results.geojson'') merged,
                 Write_file (pre @ str ''_election_simple.geojson'') simple,
                 Processing_complete (pre @ str ''_election_results.geojson'')
                   (pre @ str ''_election_simple.geojson''),
                 Sample (take 10 (rows sample))],
                Inr (pre @ str ''_election_results.geojson'',
                     pre @ str ''_election_simple.geojson''))))"
  by (simp add: write_outputs_def Let_def seq_say seq_lift fst_lift snd_lift split: sum.splits)

lemma select_columns_sub:
  assumes "select_columns a df = Inr s" "set b \<subseteq> set a"
  shows "\<exists>t. select_columns b df = Inr t"
proof -
  from assms(1) have "List.find (\<lambda>c. c \<notin> set (columns df)) a = None"
    by (auto simp: select_columns_def split: option.splits)
  then have "\<forall>c \<in> set a. c \<in> set (columns df)" by (simp add: find_None_iff)
  with assms(2) have "List.find (\<lambda>c. c \<notin> set (columns df)) b = None"
    by (auto simp: find_None_iff)
  then show ?thesis by (simp add: select_columns_def)
qed

lemma write_outputs_Inl:
  assumes "write_outputs pre cs merged = (evs, Inl e)"
  shows "select_columns (simple_columns cs) merged = Inl e
         \<and> evs = [Write_file (pre @ str ''_election_results.geojson'') merged]"
proof (cases "select_columns (simple_columns cs) merged")
  case (Inl e')
  with assms show ?thesis by (simp add: write_outputs_cases)
next
  case (Inr simple)
  have "set [PD_NUM, PD_NAME] \<subseteq> set (simple_columns cs)" by (simp add: simple_columns_def)
  from select_columns_sub[OF Inr this] obtain t where "select_columns [PD_NUM, PD_NAME] merged = Inr t"
    by blast
  with Inr assms show ?thesis by (simp add: write_outputs_cases)
qed

lemma write_outputs_Inr:
  assumes "write_outputs pre cs merged = (evs, Inr names)"
  shows "\<exists>simple sample. select_columns (simple_columns cs) merged = Inr simple
         \<and> select_columns [PD_NUM, PD_NAME] merged = Inr sample
         \<and> names = (pre @ str ''_election_results.geojson'',
                    pre @ str ''_election_simple.geojson'')
         \<and> evs = [Write_file (pre @ str ''_election_results.geojson'') merged,
                  Write_file (pre @ str ''_election_simple.geojson'') simple,
                  Processing_complete (pre @ str ''_election_results.geojson'')
                    (pre @ str ''_election_simple.geojson''),
                  Sample (take 10 (rows sample))]"
  using assms by (auto simp: write_outputs_cases split: sum.splits)

lemma join_features_cases:
  "join_features reproject gd results =
     (case get_column PD_NUM results of
        Inl e \<Rightarrow> ([], Inl e)
      | Inr csv_pds \<Rightarrow>
          (case get_column PD_NUM gd of
             Inl e \<Rightarrow> ([Divisions_in_csv (nunique csv_pds)], Inl e)
           | Inr geo_pds \<Rightarrow>
               (case merge PD_NUM Inner gd results of
                  Inl e \<Rightarrow> ([Divisions_in_csv (nunique csv_pds),
                              Divisions_in_geojson (nunique geo_pds)], Inl e)
                | Inr merged \<Rightarrow>
                    ([Divisions_in_csv (nunique csv_pds), Divisions_in_geojson (nunique geo_pds),
                      Merged_features (length (rows merged))], to_crs reproject merged))))"
  by (simp add: join_features_def seq_say seq_lift fst_lift snd_lift split: sum.splits)

lemma written_append: "written (a @ b) = written a @ written b"
  by (induction a rule: written.induct) auto

lemma written_warnings: "written (map Warning ws) = []"
  by (induction ws) auto

lemma join_features_written: "join_features reproject gd results = (evs, r) \<Longrightarrow> written evs = []"
  by (auto simp: join_features_cases split: sum.splits)


lemma process_cases:
  "process_election_data repr reproject fn csv gfn gdf pfx =
     (let m = detect_columns (columns csv);
          start = Reading_csv fn # map Warning (warnings m)
      in case extract_columns m of
           Inl e \<Rightarrow> (start, Inl e)
         | Inr cs \<Rightarrow>
            (case bindE (get_column (district_num_col cs) csv) iloc0 of
               Inl e \<Rightarrow> (start @ [Detected_columns cs], Inl e)
             | Inr district \<Rightarrow>
                (case bindE (get_column (district_name_col cs) csv) iloc0 of
                   Inl e \<Rightarrow> (start @ [Detected_columns cs], Inl e)
                 | Inr dname \<Rightarrow>
                    (let ev1 = start @ [Detected_columns cs, Processing_for dname district,
                                        Reading_geojson gfn, Total_features (length (rows gdf))]
                     in case get_column FED_NUM gdf of
                          Inl e \<Rightarrow> (ev1, Inl e)
                        | Inr fed \<Rightarrow>
                           (let ev2 = ev1 @ [Unique_fed_nums (unique fed),
                                             Features_for_district district
                                               (length (rows (district_features district gdf)))]
                            in case aggregate repr csv cs of
                                 Inl e \<Rightarrow> (ev2, Inl e)
                               | Inr results \<Rightarrow>
                                  (case join_features reproject (district_features district gdf) results of
                                     (jev, Inl e) \<Rightarrow> (ev2 @ jev, Inl e)
                                   | (jev, Inr merged) \<Rightarrow>
                                      (case write_outputs (prefix_of fn pfx) cs merged of
                                         (wev, Inl e) \<Rightarrow> (ev2 @ jev @ wev, Inl e)
                                       | (wev, Inr (rf, sf)) \<Rightarrow>
                                          (ev2 @ jev @ wev,
                                           Inr \<lparr> res_district_number = district,
                                                 res_district_name = dname,
                                                 res_candidates = candidate_cols cs,
                                                 results_file = rf, simple_file = sf \<rparr>))))))))"
  unfolding process_election_data_def prefix_of_def Let_def seq_say seq_lift
  by (auto simp: seq_def lift_def split: sum.splits prod.splits)

section \<open>Rows of a merge\<close>

lemma filter_distinct_key:
  "distinct (map f xs) \<Longrightarrow>
     filter (\<lambda>r. f r = v) xs = [] \<or> (\<exists>a. a \<in> set xs \<and> f a = v \<and> filter (\<lambda>r. f r = v) xs = [a])"
proof (induction xs)
  case Nil
  show ?case by simp
next
  case (Cons x xs)
  show ?case
  proof (cases "f x = v")
    case True
    from Cons.prems have "f x \<notin> f ` set xs" by simp
    with True have "\<forall>r \<in> set xs. f r \<noteq> v" by blast
    then have "filter (\<lambda>r. f r = v) xs = []" by (simp add: filter_empty_conv)
    with True show ?thesis by simp
  next
    case False
    with Cons show ?thesis by auto
  qed
qed

lemma list_all2_concat_filter:
  assumes "\<forall>l \<in> set ls. (h l \<longrightarrow> (\<exists>row. g l = [row] \<and> P l row)) \<and> (\<not> h l \<longrightarrow> g l = [])"
  shows "list_all2 P (filter h ls) (concat (map g ls))"
  using assms by (induction ls) auto

lemma merge_rows:
  assumes "merge key h left right = Inr m"
  shows "rows m =
     concat (map (\<lambda>l.
        case filter (\<lambda>r. cell_at r key = cell_at l key) (rows right) of
          [] \<Rightarrow> (case h of
                   Inner \<Rightarrow> []
                 | Left \<Rightarrow> [relabel (suffixed key (columns right) (str ''_x'')) l @
                            map (\<lambda>c. (c, Num NaN))
                              (map (suffixed key (columns left) (str ''_y''))
                                   (filter (\<lambda>c. c \<noteq> key) (columns right)))])
        | ms \<Rightarrow> map (\<lambda>r. relabel (suffixed key (columns right) (str ''_x'')) l @
                          relabel (suffixed key (columns left) (str ''_y''))
                            (filter (\<lambda>(c, v). c \<noteq> key) r)) ms)
      (rows left))"
  using assms by (auto simp: merge_def Let_def split: if_splits)

lemma merge_inner_distinct:
  assumes m: "merge key Inner left right = Inr m"
    and d: "distinct (map (\<lambda>r. cell_at r key) (rows right))"
  shows "list_all2
           (\<lambda>f row. \<exists>a \<in> set (rows right). cell_at a key = cell_at f key \<and>
               row = relabel (suffixed key (columns right) (str ''_x'')) f @
                     relabel (suffixed key (columns left) (str ''_y''))
                       (filter (\<lambda>(c, v). c \<noteq> key) a))
           (filter (\<lambda>f. \<exists>a \<in> set (rows right). cell_at a key = cell_at f key) (rows left))
           (rows m)"
  unfolding merge_rows[OF m]
proof (rule list_all2_concat_filter, intro ballI conjI impI)
  fix l assume "l \<in> set (rows left)"
  let ?ms = "filter (\<lambda>r. cell_at r key = cell_at l key) (rows right)"
  {
    assume "\<exists>a \<in> set (rows right). cell_at a key = cell_at l key"
    then have "?ms \<noteq> []" by (auto simp: filter_empty_conv)
    with filter_distinct_key[OF d, of "cell_at l key"] obtain a where
      a: "a \<in> set (rows right)" "cell_at a key = cell_at l key" "?ms = [a]" by blast
    then show "\<exists>row. (case ?ms of
          [] \<Rightarrow> (case Inner of
                   Inner \<Rightarrow> []
                 | Left \<Rightarrow> [relabel (suffixed key (columns right) (str ''_x'')) l @
                            map (\<lambda>c. (c, Num NaN))
                              (map (suffixed key (columns left) (str ''_y''))
                                   (filter (\<lambda>c. c \<noteq> key) (columns right)))])
        | ms \<Rightarrow> map (\<lambda>r. relabel (suffixed key (columns right) (str ''_x'')) l @
                          relabel (suffixed key (columns left) (str ''_y''))
                            (filter (\<lambda>(c, v). c \<noteq> key) r)) ms) = [row]
        \<and> (\<exists>a \<in> set (rows right). cell_at a key = cell_at l key \<and>
               row = relabel (suffixed key (columns right) (str ''_x'')) l @
                     relabel (suffixed key (columns left) (str ''_y''))
                       (filter (\<lambda>(c, v). c \<noteq> key) a))"
      by auto
  }
  {
    assume "\<not> (\<exists>a \<in> set (rows right). cell_at a key = cell_at l key)"
    then have "?ms = []" by (auto simp: filter_empty_conv)
    then show "(case ?ms of
          [] \<Rightarrow> (case Inner of
                   Inner \<Rightarrow> []
                 | Left \<Rightarrow> [relabel (suffixed key (columns right) (str ''_x'')) l @
                            map (\<lambda>c. (c, Num NaN))
                              (map (suffixed key (columns left) (str ''_y''))
                                   (filter (\<lambda>c. c \<noteq> key) (columns right)))])
        | ms \<Rightarrow> map (\<lambda>r. relabel (suffixed key (columns right) (str ''_x'')) l @
                          relabel (suffixed key (columns left) (str ''_y''))
                            (filter (\<lambda>(c, v). c \<noteq> key) r)) ms) = []"
      by simp
  }
qed


lemma suffixed_key: "suffixed PD_NUM others (str ''_x'') c = PD_NUM \<longleftrightarrow> c = PD_NUM"
  "suffixed PD_NUM others (str ''_y'') c = PD_NUM \<longleftrightarrow> c = PD_NUM"
proof -
  have lx: "last (c @ str ''_x'') = 120" and ly: "last (c @ str ''_y'') = 121"
    and lk: "last PD_NUM = 77"
    by (simp_all add: str_def PD_NUM_def)
  have "c @ str ''_x'' \<noteq> PD_NUM"
  proof
    assume "c @ str ''_x'' = PD_NUM"
    then have "last (c @ str ''_x'') = last PD_NUM" by (rule arg_cong)
    then show False unfolding lx lk by simp
  qed
  moreover have "c @ str ''_y'' \<noteq> PD_NUM"
  proof
    assume "c @ str ''_y'' = PD_NUM"
    then have "last (c @ str ''_y'') = last PD_NUM" by (rule arg_cong)
    then show False unfolding ly lk by simp
  qed
  ultimately show "suffixed PD_NUM others (str ''_x'') c = PD_NUM \<longleftrightarrow> c = PD_NUM"
    "suffixed PD_NUM others (str ''_y'') c = PD_NUM \<longleftrightarrow> c = PD_NUM"
    unfolding suffixed_def by (simp_all split: if_splits)
qed

lemma map_of_relabel:
  assumes "\<And>c. f c = k \<longleftrightarrow> c = k"
  shows "map_of (relabel f r) k = map_of r k"
proof (induction r)
  case Nil
  show ?case by (simp add: relabel_def)
next
  case (Cons p r)
  obtain c v where p: "p = (c, v)" by (cases p)
  have step: "relabel f ((c, v) # r) = (f c, v) # relabel f r" by (simp add: relabel_def)
  show ?case
  proof (cases "c = k")
    case True
    then have "f c = k" using assms by simp
    then show ?thesis unfolding step p using True by simp
  next
    case False
    then have "f c \<noteq> k" using assms by simp
    then show ?thesis unfolding step p using False Cons by simp
  qed
qed

lemma map_of_without_key: "map_of (filter (\<lambda>(c, v). c \<noteq> k) r) k = None"
  by (induction r) auto

lemma map_of_fill: "k \<notin> set cs \<Longrightarrow> map_of (map (\<lambda>c. (c, v)) cs) k = None"
  by (induction cs) auto

lemma merge_key_cell:
  assumes "merge PD_NUM h left right = Inr m" "row \<in> set (rows m)"
  shows "\<exists>l \<in> set (rows left). cell_at row PD_NUM = cell_at l PD_NUM"
proof -
  let ?fx = "suffixed PD_NUM (columns right) (str ''_x'')"
  let ?fy = "suffixed PD_NUM (columns left) (str ''_y'')"
  have left_part: "cell_at (relabel ?fx l @ rest) PD_NUM = cell_at l PD_NUM"
    if "map_of rest PD_NUM = None" for l rest
    using that by (simp add: cell_at_def map_add_def map_of_relabel[of ?fx PD_NUM, OF suffixed_key(1)]
        split: option.splits)
  have r1: "map_of (relabel ?fy (filter (\<lambda>(c, v). c \<noteq> PD_NUM) r)) PD_NUM = None" for r :: "'a row"
    by (simp add: map_of_relabel[of ?fy PD_NUM, OF suffixed_key(2)] map_of_without_key)
  have r2: "map_of (map (\<lambda>c. (c, Num NaN :: 'a cell))
                (map ?fy (filter (\<lambda>c. c \<noteq> PD_NUM) (columns right)))) PD_NUM = None"
    by (rule map_of_fill) (auto simp: suffixed_key dest!: sym[of PD_NUM])
  let ?g = "\<lambda>l. case filter (\<lambda>r. cell_at r PD_NUM = cell_at l PD_NUM) (rows right) of
          [] \<Rightarrow> (case h of
                   Inner \<Rightarrow> []
                 | Left \<Rightarrow> [relabel ?fx l @
                            map (\<lambda>c. (c, Num NaN))
                              (map ?fy (filter (\<lambda>c. c \<noteq> PD_NUM) (columns right)))])
        | ms \<Rightarrow> map (\<lambda>r. relabel ?fx l @ relabel ?fy (filter (\<lambda>(c, v). c \<noteq> PD_NUM) r)) ms"
  from assms(2) obtain l where l: "l \<in> set (rows left)" and in_g: "row \<in> set (?g l)"
    unfolding merge_rows[OF assms(1)] set_concat set_map by blast
  have row: "(\<exists>r. row = relabel ?fx l @ relabel ?fy (filter (\<lambda>(c, v). c \<noteq> PD_NUM) r))
            \<or> row = relabel ?fx l @ map (\<lambda>c. (c, Num NaN))
                (map ?fy (filter (\<lambda>c. c \<noteq> PD_NUM) (columns right)))"
  proof (cases "filter (\<lambda>r. cell_at r PD_NUM = cell_at l PD_NUM) (rows right)")
    case Nil
    with in_g show ?thesis by (cases h) simp_all
  next
    case (Cons a ms)
    with in_g show ?thesis by (simp only: list.case set_map) blast
  qed
  from row have "cell_at row PD_NUM = cell_at l PD_NUM"
    using left_part r1 r2 by auto
  with l show ?thesis by blast
qed

section \<open>The keys of the aggregate\<close>

lemma key_cell_inj: "key_cell a = (key_cell b :: 'g cell) \<longleftrightarrow> a = b"
  by (simp add: key_cell_def)

lemma distinct_key_cells: "distinct (map key_cell (group_keys by df) :: 'g cell list)"
  by (simp add: distinct_map group_keys_def inj_on_def key_cell_inj)

lemma summed_keys:
  assumes "groupby_sum by cs df = Inr g"
  shows "map (\<lambda>r. cell_at r by) (rows g) = map key_cell (group_keys by df)"
  using assms by (auto simp: groupby_sum_def cell_at_def split: if_splits)

lemma names_keys:
  "map (\<lambda>r. cell_at r PD_NUM) (rows (polling_division_names name_col clean)) =
     map key_cell (group_keys PD_NUM clean)"
  by (simp add: names_rows cell_at_def comp_def)

lemma pct_name_not_key: "pct_name c \<noteq> PD_NUM"
proof
  assume "pct_name c = PD_NUM"
  then have "last (pct_name c) = last PD_NUM" by (rule arg_cong)
  then show False by (simp add: label_defs)
qed

lemma percentages_keys:
  "map (\<lambda>r. cell_at r PD_NUM) (rows (add_percentages cands t df)) =
     map (\<lambda>r. cell_at r PD_NUM) (rows df)"
proof -
  have "PD_NUM \<notin> pct_name ` set cands" using pct_name_not_key by (metis imageE)
  then show ?thesis by (simp add: rows_add_percentages comp_def pct_row_other)
qed

lemma add_leading_other:
  assumes "add_leading cands df = Inr df'" "l \<noteq> LEADING" "l \<noteq> LEADING_PCT"
  shows "map (\<lambda>r. cell_at r l) (rows df') = map (\<lambda>r. cell_at r l) (rows df)"
proof -
  from assms obtain ls where ls: "map_result (\<lambda>r. find_leading_candidate r cands) (rows df) = Inr ls"
    and df': "df' = set_column LEADING_PCT leading_pct_of (assign LEADING (map Str ls) df)"
    by (auto simp: add_leading_def bindE_def split: sum.splits)
  from map_result_Inr[OF ls] have len: "length ls = length (rows df)" by simp
  show ?thesis
  proof (rule nth_equalityI)
    show "length (map (\<lambda>r. cell_at r l) (rows df')) = length (map (\<lambda>r. cell_at r l) (rows df))"
      using len by (simp add: df' rows_set_column assign_def)
    fix i assume "i < length (map (\<lambda>r. cell_at r l) (rows df'))"
    then have i: "i < length (rows df)" using len by (simp add: df' rows_set_column assign_def)
    then show "map (\<lambda>r. cell_at r l) (rows df') ! i = map (\<lambda>r. cell_at r l) (rows df) ! i"
      using len assms(2,3) by (simp add: df' rows_set_column assign_def cell_at_update)
  qed
qed

lemma map_concat_singletons:
  assumes "\<forall>l \<in> set ls. \<exists>row. g l = [row] \<and> F row = F l"
  shows "map F (concat (map g ls)) = map F ls"
  using assms by (induction ls) auto

lemma merge_left_keys:
  assumes m: "merge PD_NUM Left left right = Inr m"
    and d: "distinct (map (\<lambda>r. cell_at r PD_NUM) (rows right))"
  shows "map (\<lambda>r. cell_at r PD_NUM) (rows m) = map (\<lambda>r. cell_at r PD_NUM) (rows left)"
  unfolding merge_rows[OF m]
proof (rule map_concat_singletons, rule ballI)
  fix l assume l: "l \<in> set (rows left)"
  let ?fx = "suffixed PD_NUM (columns right) (str ''_x'')"
  let ?fy = "suffixed PD_NUM (columns left) (str ''_y'')"
  let ?ms = "filter (\<lambda>r. cell_at r PD_NUM = cell_at l PD_NUM) (rows right)"
  let ?g = "case ?ms of
          [] \<Rightarrow> (case Left of
                   Inner \<Rightarrow> []
                 | Left \<Rightarrow> [relabel ?fx l @
                            map (\<lambda>c. (c, Num NaN))
                              (map ?fy (filter (\<lambda>c. c \<noteq> PD_NUM) (columns right)))])
        | ms \<Rightarrow> map (\<lambda>r. relabel ?fx l @ relabel ?fy (filter (\<lambda>(c, v). c \<noteq> PD_NUM) r)) ms"
  have left_part: "cell_at (relabel ?fx l @ rest) PD_NUM = cell_at l PD_NUM"
    if "map_of rest PD_NUM = None" for rest
    using that by (simp add: cell_at_def map_add_def map_of_relabel[of ?fx PD_NUM, OF suffixed_key(1)]
        split: option.splits)
  have r1: "map_of (relabel ?fy (filter (\<lambda>(c, v). c \<noteq> PD_NUM) r)) PD_NUM = None" for r :: "'a row"
    by (simp add: map_of_relabel[of ?fy PD_NUM, OF suffixed_key(2)] map_of_without_key)
  have r2: "map_of (map (\<lambda>c. (c, Num NaN :: 'a cell))
                (map ?fy (filter (\<lambda>c. c \<noteq> PD_NUM) (columns right)))) PD_NUM = None"
    by (rule map_of_fill) (auto simp: suffixed_key dest!: sym[of PD_NUM])
  from filter_distinct_key[OF d, of "cell_at l PD_NUM"]
  show "\<exists>row. ?g = [row] \<and> cell_at row PD_NUM = cell_at l PD_NUM"
  proof
    assume "?ms = []"
    then show ?thesis using left_part[OF r2] by simp
  next
    assume "\<exists>a. a \<in> set (rows right) \<and> cell_at a PD_NUM = cell_at l PD_NUM \<and> ?ms = [a]"
    then obtain a where "?ms = [a]" by blast
    then show ?thesis using left_part[OF r1] by simp
  qed
qed

lemma results_keys:
  assumes "polling_division_results cs clean = Inr results"
  shows "map (\<lambda>r. cell_at r PD_NUM) (rows results) = map key_cell (group_keys PD_NUM clean)"
proof -
  from assms obtain summed res where
    s: "groupby_sum PD_NUM (numeric_cols cs) clean = Inr summed"
    and l: "add_leading (candidate_cols cs)
              (add_percentages (candidate_cols cs) (total_votes_col cs) summed) = Inr res"
    and m: "merge PD_NUM Left res (polling_division_names (pd_name_col cs) clean) = Inr results"
    by (auto simp: polling_division_results_def bindE_def split: sum.splits)
  have d: "distinct (map (\<lambda>r. cell_at r PD_NUM)
             (rows (polling_division_names (pd_name_col cs) clean)))"
    unfolding names_keys by (rule distinct_key_cells)
  have "map (\<lambda>r. cell_at r PD_NUM) (rows results) = map (\<lambda>r. cell_at r PD_NUM) (rows res)"
    by (rule merge_left_keys[OF m d])
  also have "\<dots> = map (\<lambda>r. cell_at r PD_NUM)
                    (rows (add_percentages (candidate_cols cs) (total_votes_col cs) summed))"
    by (rule add_leading_other[OF l]) (simp_all add: label_distinct[symmetric])
  also have "\<dots> = map (\<lambda>r. cell_at r PD_NUM) (rows summed)" by (rule percentages_keys)
  also have "\<dots> = map key_cell (group_keys PD_NUM clean)" by (rule summed_keys[OF s])
  finally show ?thesis .
qed

lemma aggregate_keys_distinct:
  assumes "aggregate repr csv cs = Inr results"
  shows "distinct (map (\<lambda>r. cell_at r PD_NUM) (rows results))"
proof -
  from assms obtain clean where "polling_division_results cs clean = Inr results"
    by (auto simp: aggregate_def bindE_def split: sum.splits)
  from results_keys[OF this] show ?thesis by (simp add: distinct_key_cells)
qed

lemma to_crs_length: "to_crs reproject df = Inr df' \<Longrightarrow> length (rows df') = length (rows df)"
  by (auto simp: to_crs_def split: if_splits)

lemma select_columns_length:
  "select_columns labels df = Inr df' \<Longrightarrow> length (rows df') = length (rows df)"
  by (auto simp: select_columns_def split: option.splits)

section \<open>A successful run\<close>

lemma process_success:
  assumes "process_election_data repr reproject fn csv gfn gdf pfx = (evs, Inr res)"
  shows "\<exists>cs fed results jev joined wev.
     extract_columns (detect_columns (columns csv)) = Inr cs
   \<and> bindE (get_column (district_num_col cs) csv) iloc0 = Inr (res_district_number res)
   \<and> bindE (get_column (district_name_col cs) csv) iloc0 = Inr (res_district_name res)
   \<and> get_column FED_NUM gdf = Inr fed
   \<and> aggregate repr csv cs = Inr results
   \<and> join_features reproject (district_features (res_district_number res) gdf) results =
       (jev, Inr joined)
   \<and> write_outputs (prefix_of fn pfx) cs joined = (wev, Inr (results_file res, simple_file res))
   \<and> evs = Reading_csv fn # map Warning (warnings (detect_columns (columns csv))) @
           [Detected_columns cs,
            Processing_for (res_district_name res) (res_district_number res),
            Reading_geojson gfn, Total_features (length (rows gdf)),
            Unique_fed_nums (unique fed),
            Features_for_district (res_district_number res)
              (length (rows (district_features (res_district_number res) gdf)))] @ jev @ wev"
proof -
  let ?m = "detect_columns (columns csv)"
  note pc = process_cases[of repr reproject fn csv gfn gdf pfx, unfolded Let_def]
  from assms obtain cs where cs: "extract_columns ?m = Inr cs"
    unfolding pc by (cases "extract_columns ?m") auto
  from assms cs obtain d where d: "bindE (get_column (district_num_col cs) csv) iloc0 = Inr d"
    unfolding pc by (cases "bindE (get_column (district_num_col cs) csv) iloc0") auto
  from assms cs d obtain n where n: "bindE (get_column (district_name_col cs) csv) iloc0 = Inr n"
    unfolding pc by (cases "bindE (get_column (district_name_col cs) csv) iloc0") auto
  from assms cs d n obtain fed where fed: "get_column FED_NUM gdf = Inr fed"
    unfolding pc by (cases "get_column FED_NUM gdf") auto
  from assms cs d n fed obtain results where r: "aggregate repr csv cs = Inr results"
    unfolding pc by (cases "aggregate repr csv cs") auto
  obtain jev jr where j: "join_features reproject (district_features d gdf) results = (jev, jr)"
    by (cases "join_features reproject (district_features d gdf) results")
  from assms cs d n fed r j obtain joined where jr: "jr = Inr joined"
    unfolding pc by (cases jr) auto
  obtain wev wr where w: "write_outputs (prefix_of fn pfx) cs joined = (wev, wr)"
    by (cases "write_outputs (prefix_of fn pfx) cs joined")
  from assms cs d n fed r j jr w obtain rf sf where wr: "wr = Inr (rf, sf)"
    unfolding pc by (cases wr) auto
  from assms cs d n fed r j jr w wr
  have res: "res = \<lparr> res_district_number = d, res_district_name = n,
                     res_candidates = candidate_cols cs, results_file = rf, simple_file = sf \<rparr>"
    and evs: "evs = Reading_csv fn # map Warning (warnings ?m) @
           [Detected_columns cs, Processing_for n d, Reading_geojson gfn,
            Total_features (length (rows gdf)), Unique_fed_nums (unique fed),
            Features_for_district d (length (rows (district_features d gdf)))] @ jev @ wev"
    unfolding pc by auto
  from cs d n fed r j jr w wr evs show ?thesis unfolding res by simp
qed

lemma get_column_Inr: "get_column c df = Inr vs \<Longrightarrow> vs = map (\<lambda>r. cell_at r c) (rows df)"
  by (auto simp: get_column_def split: if_splits)

lemma to_crs_rows:
  "to_crs reproject df = Inr df' \<Longrightarrow>
     rows df' = map (map (\<lambda>(c, v). (c, the (reproject_cell reproject v)))) (rows df)"
  by (auto simp: to_crs_def split: if_splits)

lemma select_columns_rows:
  "select_columns labels df = Inr df' \<Longrightarrow>
     rows df' = map (\<lambda>r. map (\<lambda>c. (c, cell_at r c)) labels) (rows df)"
  by (auto simp: select_columns_def split: option.splits)

lemma join_features_Inr:
  assumes "join_features reproject gd results = (jev, Inr joined)"
  shows "\<exists>merged. merge PD_NUM Inner gd results = Inr merged
          \<and> to_crs reproject merged = Inr joined
          \<and> jev = [Divisions_in_csv (nunique (map (\<lambda>r. cell_at r PD_NUM) (rows results))),
                   Divisions_in_geojson (nunique (map (\<lambda>r. cell_at r PD_NUM) (rows gd))),
                   Merged_features (length (rows merged))]"
proof -
  note jc = join_features_cases[of reproject gd results]
  from assms obtain a where a: "get_column PD_NUM results = Inr a"
    unfolding jc by (cases "get_column PD_NUM results") auto
  from assms a obtain b where b: "get_column PD_NUM gd = Inr b"
    unfolding jc by (cases "get_column PD_NUM gd") auto
  from assms a b obtain merged where m: "merge PD_NUM Inner gd results = Inr merged"
    unfolding jc by (cases "merge PD_NUM Inner gd results") auto
  from assms a b m have "to_crs reproject merged = Inr joined"
    and "jev = [Divisions_in_csv (nunique a), Divisions_in_geojson (nunique b),
                Merged_features (length (rows merged))]"
    unfolding jc by auto
  with m get_column_Inr[OF a] get_column_Inr[OF b] show ?thesis by auto
qed

section \<open>Evaluation of the example runs\<close>

lemma ex_district_eval:
  "bindE (get_column (district_num_col ex_cols) ex_csv) iloc0 = Inr (Num (Fin 24030))"
  "bindE (get_column (district_name_col ex_cols) ex_csv) iloc0 = Inr (Str (str ''Jonquiere''))"
  by (simp_all add: ex_defs script_defs table_defs label_defs)

lemma ex_prefix_eval: "prefix_of (str ''r.csv'') None = str ''r''"
  by (simp add: prefix_of_def basename_def splitext_root_def str_def)

lemma ex_run_cases:
  "process_election_data ex_repr Some (str ''r.csv'') ex_csv (str ''g.geojson'') gdf None =
     (let ev1 = Reading_csv (str ''r.csv'') # map Warning (warnings (detect_columns (columns ex_csv))) @
                 [Detected_columns ex_cols,
                  Processing_for (Str (str ''Jonquiere'')) (Num (Fin 24030)),
                  Reading_geojson (str ''g.geojson''), Total_features (length (rows gdf))]
      in case get_column FED_NUM gdf of
           Inl e \<Rightarrow> (ev1, Inl e)
         | Inr fed \<Rightarrow>
            (let ev2 = ev1 @ [Unique_fed_nums (unique fed),
                              Features_for_district (Num (Fin 24030))
                                (length (rows (district_features (Num (Fin 24030)) gdf)))]
             in case join_features Some (district_features (Num (Fin 24030)) gdf) ex_results of
                  (jev, Inl e) \<Rightarrow> (ev2 @ jev, Inl e)
                | (jev, Inr merged) \<Rightarrow>
                   (case write_outputs (str ''r'') ex_cols merged of
                      (wev, Inl e) \<Rightarrow> (ev2 @ jev @ wev, Inl e)
                    | (wev, Inr (rf, sf)) \<Rightarrow>
                       (ev2 @ jev @ wev,
                        Inr \<lparr> res_district_number = Num (Fin 24030),
                              res_district_name = Str (str ''Jonquiere''),
                              res_candidates = candidate_cols ex_cols,
                              results_file = rf, simple_file = sf \<rparr>))))"
  unfolding process_cases Let_def ex_columns_eval
  by (simp only: sum.case ex_district_eval ex_aggregate_eval ex_prefix_eval append_Cons append_assoc)

lemmas run_defs = join_features_cases write_outputs_cases district_features_def
  simple_columns_def ex_results_def ex_result_labels_def ex_sum_labels_def ex_cols_def
  numeric_cols_def written_append written_warnings

lemma ex_run_ok:
  "snd (process_election_data ex_repr Some (str ''r.csv'') ex_csv (str ''g.geojson'') ex_geo None)
     = Inr ex_result"
  unfolding ex_run_cases Let_def
  by (simp add: run_defs ex_geo_def ex_result_def table_defs label_defs)

lemma ex_run_fail:
  "snd (process_election_data ex_repr Some (str ''r.csv'') ex_csv (str ''g.geojson'')
          ex_geo_named None) = Inl (KeyError (str ''PD_NAME''))"
  "written (fst (process_election_data ex_repr Some (str ''r.csv'') ex_csv (str ''g.geojson'')
          ex_geo_named None)) = [str ''r_election_results.geojson'']"
  unfolding ex_run_cases Let_def
  by (simp_all add: run_defs ex_geo_named_def table_defs label_defs)

lemma main_reraises:
  assumes "fs fn = Some csv"
    and "fs (case args of [] \<Rightarrow> str ''polling_divisions.geojson'' | g # _ \<Rightarrow> g) = Some gdf"
    and "process_election_data repr reproject fn csv
           (case args of [] \<Rightarrow> str ''polling_divisions.geojson'' | g # _ \<Rightarrow> g) gdf
           (case args of _ # p # _ \<Rightarrow> Some p | _ \<Rightarrow> None) = (out, Inl e)"
  shows "main repr reproject fs (fn # args) = (out @ [Error_processing e], Inl e)"
  using assms by (simp add: main_def Let_def)

section \<open>C7: the inner join\<close>

text \<open>
  Claim C7. In a run that returns, the first file holds the reprojected rows of the inner
  join and the second file their projection on the simplified columns. The rows of the
  join are, in order and one for one, the boundary features whose \<open>FED_NUM\<close> equals the
  district number read from the first row of the table and whose \<open>PD_NUM\<close> is the key of
  an aggregate; each is the feature followed by the other cells of that aggregate, and the
  keys of the aggregates are distinct. So a feature without an aggregate and an aggregate
  without a feature are in neither file. The run prints the number of features, the
  number of features of the district, the number of divisions on either side and the
  number of joined rows, before the files are written.
\<close>

theorem C7_inner_join:
  "process_election_data repr reproject fn csv gfn gdf pfx = (evs, Inr res) \<longrightarrow>
   (\<exists>cs results merged joined simple sample.
      extract_columns (detect_columns (columns csv)) = Inr cs
    \<and> iloc0 (map (\<lambda>r. cell_at r (district_num_col cs)) (rows csv)) =
        Inr (res_district_number res)
    \<and> aggregate repr csv cs = Inr results
    \<and> distinct (map (\<lambda>a. cell_at a PD_NUM) (rows results))
    \<and> merge PD_NUM Inner (district_features (res_district_number res) gdf) results = Inr merged
    \<and> list_all2
        (\<lambda>f row. \<exists>a \<in> set (rows results). cell_at a PD_NUM = cell_at f PD_NUM \<and>
            row = relabel (suffixed PD_NUM (columns results) (str ''_x'')) f @
                  relabel (suffixed PD_NUM (columns gdf) (str ''_y''))
                    (filter (\<lambda>(c, v). c \<noteq> PD_NUM) a))
        (filter (\<lambda>f. cell_eq (cell_at f FED_NUM) (res_district_number res) \<and>
                    (\<exists>a \<in> set (rows results). cell_at a PD_NUM = cell_at f PD_NUM))
                (rows gdf))
        (rows merged)
    \<and> to_crs reproject merged = Inr joined
    \<and> rows joined = map (map (\<lambda>(c, v). (c, the (reproject_cell reproject v)))) (rows merged)
    \<and> select_columns (simple_columns cs) joined = Inr simple
    \<and> rows simple = map (\<lambda>r. map (\<lambda>c. (c, cell_at r c)) (simple_columns cs)) (rows joined)
    \<and> evs = Reading_csv fn # map Warning (warnings (detect_columns (columns csv))) @
          [Detected_columns cs,
           Processing_for (res_district_name res) (res_district_number res),
           Reading_geojson gfn,
           Total_features (length (rows gdf)),
           Unique_fed_nums (unique (map (\<lambda>f. cell_at f FED_NUM) (rows gdf))),
           Features_for_district (res_district_number res)
             (length (filter (\<lambda>f. cell_eq (cell_at f FED_NUM) (res_district_number res))
                        (rows gdf))),
           Divisions_in_csv (nunique (map (\<lambda>a. cell_at a PD_NUM) (rows results))),
           Divisions_in_geojson
             (nunique (map (\<lambda>f. cell_at f PD_NUM)
                (filter (\<lambda>f. cell_eq (cell_at f FED_NUM) (res_district_number res))
                   (rows gdf)))),
           Merged_features (length (rows merged)),
           Write_file (results_file res) joined,
           Write_file (simple_file res) simple,
           Processing_complete (results_file res) (simple_file res),
           Sample sample])"
proof
  assume run: "process_election_data repr reproject fn csv gfn gdf pfx = (evs, Inr res)"
  let ?d = "res_district_number res"
  let ?gd = "district_features ?d gdf"
  from process_success[OF run] obtain cs fed results jev joined wev where
    cs: "extract_columns (detect_columns (columns csv)) = Inr cs"
    and d: "bindE (get_column (district_num_col cs) csv) iloc0 = Inr ?d"
    and fed: "get_column FED_NUM gdf = Inr fed"
    and agg: "aggregate repr csv cs = Inr results"
    and j: "join_features reproject ?gd results = (jev, Inr joined)"
    and w: "write_outputs (prefix_of fn pfx) cs joined = (wev, Inr (results_file res, simple_file res))"
    and evs: "evs = Reading_csv fn # map Warning (warnings (detect_columns (columns csv))) @
           [Detected_columns cs, Processing_for (res_district_name res) ?d,
            Reading_geojson gfn, Total_features (length (rows gdf)),
            Unique_fed_nums (unique fed),
            Features_for_district ?d (length (rows ?gd))] @ jev @ wev"
    by blast
  from d have d': "iloc0 (map (\<lambda>r. cell_at r (district_num_col cs)) (rows csv)) = Inr ?d"
    by (auto simp: bindE_def get_column_def split: if_splits sum.splits)
  from join_features_Inr[OF j] obtain merged where
    m: "merge PD_NUM Inner ?gd results = Inr merged"
    and crs: "to_crs reproject merged = Inr joined"
    and jev: "jev = [Divisions_in_csv (nunique (map (\<lambda>r. cell_at r PD_NUM) (rows results))),
                   Divisions_in_geojson (nunique (map (\<lambda>r. cell_at r PD_NUM) (rows ?gd))),
                   Merged_features (length (rows merged))]"
    by blast
  from write_outputs_Inr[OF w] obtain simple sample where
    sel: "select_columns (simple_columns cs) joined = Inr simple"
    and smp: "select_columns [PD_NUM, PD_NAME] joined = Inr sample"
    and names: "(results_file res, simple_file res) =
                  (prefix_of fn pfx @ str ''_election_results.geojson'',
                   prefix_of fn pfx @ str ''_election_simple.geojson'')"
    and wev0: "wev = [Write_file (prefix_of fn pfx @ str ''_election_results.geojson'') joined,
                     Write_file (prefix_of fn pfx @ str ''_election_simple.geojson'') simple,
                     Processing_complete (prefix_of fn pfx @ str ''_election_results.geojson'')
                       (prefix_of fn pfx @ str ''_election_simple.geojson''),
                     Sample (take 10 (rows sample))]"
    by (elim exE conjE) (rule that, assumption+)
  from names wev0 have
    wev: "wev = [Write_file (results_file res) joined, Write_file (simple_file res) simple,
                    Processing_complete (results_file res) (simple_file res),
                    Sample (take 10 (rows sample))]"
    by simp
  have dist: "distinct (map (\<lambda>a. cell_at a PD_NUM) (rows results))"
    by (rule aggregate_keys_distinct[OF agg])
  have gd_rows: "rows ?gd = filter (\<lambda>f. cell_eq (cell_at f FED_NUM) ?d) (rows gdf)"
    and gd_cols: "columns ?gd = columns gdf"
    by (simp_all add: district_features_def filter_rows_def)
  have la: "list_all2
        (\<lambda>f row. \<exists>a \<in> set (rows results). cell_at a PD_NUM = cell_at f PD_NUM \<and>
            row = relabel (suffixed PD_NUM (columns results) (str ''_x'')) f @
                  relabel (suffixed PD_NUM (columns gdf) (str ''_y''))
                    (filter (\<lambda>(c, v). c \<noteq> PD_NUM) a))
        (filter (\<lambda>f. cell_eq (cell_at f FED_NUM) ?d \<and>
                    (\<exists>a \<in> set (rows results). cell_at a PD_NUM = cell_at f PD_NUM))
                (rows gdf))
        (rows merged)"
    using merge_inner_distinct[OF m dist] unfolding gd_rows gd_cols filter_filter
    by (simp add: conj_commute)
  have evs': "evs = Reading_csv fn # map Warning (warnings (detect_columns (columns csv))) @
          [Detected_columns cs,
           Processing_for (res_district_name res) ?d,
           Reading_geojson gfn,
           Total_features (length (rows gdf)),
           Unique_fed_nums (unique (map (\<lambda>f. cell_at f FED_NUM) (rows gdf))),
           Features_for_district ?d
             (length (filter (\<lambda>f. cell_eq (cell_at f FED_NUM) ?d) (rows gdf))),
           Divisions_in_csv (nunique (map (\<lambda>a. cell_at a PD_NUM) (rows results))),
           Divisions_in_geojson
             (nunique (map (\<lambda>f. cell_at f PD_NUM)
                (filter (\<lambda>f. cell_eq (cell_at f FED_NUM) ?d) (rows gdf)))),
           Merged_features (length (rows merged)),
           Write_file (results_file res) joined,
           Write_file (simple_file res) simple,
           Processing_complete (results_file res) (simple_file res),
           Sample (take 10 (rows sample))]"
    unfolding evs jev wev gd_rows get_column_Inr[OF fed] by simp
  from cs d' agg dist m la crs to_crs_rows[OF crs] sel select_columns_rows[OF sel] evs'
  show "\<exists>cs results merged joined simple sample.
      extract_columns (detect_columns (columns csv)) = Inr cs
    \<and> iloc0 (map (\<lambda>r. cell_at r (district_num_col cs)) (rows csv)) = Inr ?d
    \<and> aggregate repr csv cs = Inr results
    \<and> distinct (map (\<lambda>a. cell_at a PD_NUM) (rows results))
    \<and> merge PD_NUM Inner ?gd results = Inr merged
    \<and> list_all2
        (\<lambda>f row. \<exists>a \<in> set (rows results). cell_at a PD_NUM = cell_at f PD_NUM \<and>
            row = relabel (suffixed PD_NUM (columns results) (str ''_x'')) f @
                  relabel (suffixed PD_NUM (columns gdf) (str ''_y''))
                    (filter (\<lambda>(c, v). c \<noteq> PD_NUM) a))
        (filter (\<lambda>f. cell_eq (cell_at f FED_NUM) ?d \<and>
                    (\<exists>a \<in> set (rows results). cell_at a PD_NUM = cell_at f PD_NUM))
                (rows gdf))
        (rows merged)
    \<and> to_crs reproject merged = Inr joined
    \<and> rows joined = map (map (\<lambda>(c, v). (c, the (reproject_cell reproject v)))) (rows merged)
    \<and> select_columns (simple_columns cs) joined = Inr simple
    \<and> rows simple = map (\<lambda>r. map (\<lambda>c. (c, cell_at r c)) (simple_columns cs)) (rows joined)
    \<and> evs = Reading_csv fn # map Warning (warnings (detect_columns (columns csv))) @
          [Detected_columns cs,
           Processing_for (res_district_name res) ?d,
           Reading_geojson gfn,
           Total_features (length (rows gdf)),
           Unique_fed_nums (unique (map (\<lambda>f. cell_at f FED_NUM) (rows gdf))),
           Features_for_district ?d
             (length (filter (\<lambda>f. cell_eq (cell_at f FED_NUM) ?d) (rows gdf))),
           Divisions_in_csv (nunique (map (\<lambda>a. cell_at a PD_NUM) (rows results))),
           Divisions_in_geojson
             (nunique (map (\<lambda>f. cell_at f PD_NUM)
                (filter (\<lambda>f. cell_eq (cell_at f FED_NUM) ?d) (rows gdf)))),
           Merged_features (length (rows merged)),
           Write_file (results_file res) joined,
           Write_file (simple_file res) simple,
           Processing_complete (results_file res) (simple_file res),
           Sample sample]"
    by (intro exI[of _ cs] exI[of _ results] exI[of _ merged] exI[of _ joined]
          exI[of _ simple] exI[of _ "take 10 (rows sample)"] conjI)
qed

theorem C7_inner_join_witness:
  "\<exists>evs merged joined simple sample.
      process_election_data ex_repr Some (str ''r.csv'') ex_csv (str ''g.geojson'') ex_geo None
        = (evs, Inr ex_result)
    \<and> merge PD_NUM Inner (district_features (Num (Fin 24030)) ex_geo) ex_results = Inr merged
    \<and> length (rows ex_geo) = 3 \<and> length (rows ex_results) = 2 \<and> length (rows merged) = 1
    \<and> to_crs Some merged = Inr joined \<and> length (rows joined) = 1
    \<and> select_columns (simple_columns ex_cols) joined = Inr simple \<and> length (rows simple) = 1
    \<and> evs = Reading_csv (str ''r.csv'') # map Warning (warnings (detect_columns (columns ex_csv))) @
          [Detected_columns ex_cols,
           Processing_for (Str (str ''Jonquiere'')) (Num (Fin 24030)),
           Reading_geojson (str ''g.geojson''),
           Total_features 3,
           Unique_fed_nums [Num (Fin 24030), Num (Fin 24031)],
           Features_for_district (Num (Fin 24030)) 2,
           Divisions_in_csv 2,
           Divisions_in_geojson 2,
           Merged_features 1,
           Write_file (str ''r_election_results.geojson'') joined,
           Write_file (str ''r_election_simple.geojson'') simple,
           Processing_complete (str ''r_election_results.geojson'') (str ''r_election_simple.geojson''),
           Sample sample]"
proof -
  let ?run = "process_election_data ex_repr Some (str ''r.csv'') ex_csv (str ''g.geojson'') ex_geo None"
  have "?run = (fst ?run, snd ?run)" by simp
  then have run: "?run = (fst ?run, Inr ex_result)" unfolding ex_run_ok .
  have d: "res_district_number ex_result = Num (Fin 24030)"
    and n: "res_district_name ex_result = Str (str ''Jonquiere'')"
    and rf: "results_file ex_result = str ''r_election_results.geojson''"
    and sf: "simple_file ex_result = str ''r_election_simple.geojson''"
    by (simp_all add: ex_result_def)
  from C7_inner_join[of ex_repr Some "str ''r.csv''" ex_csv "str ''g.geojson''" ex_geo None
      "fst ?run" ex_result] run
  obtain cs results merged joined simple sample where
    cs: "extract_columns (detect_columns (columns ex_csv)) = Inr cs"
    and agg: "aggregate ex_repr ex_csv cs = Inr results"
    and m: "merge PD_NUM Inner (district_features (Num (Fin 24030)) ex_geo) results = Inr merged"
    and la: "list_all2
        (\<lambda>f row. \<exists>a \<in> set (rows results). cell_at a PD_NUM = cell_at f PD_NUM \<and>
            row = relabel (suffixed PD_NUM (columns results) (str ''_x'')) f @
                  relabel (suffixed PD_NUM (columns ex_geo) (str ''_y''))
                    (filter (\<lambda>(c, v). c \<noteq> PD_NUM) a))
        (filter (\<lambda>f. cell_eq (cell_at f FED_NUM) (Num (Fin 24030)) \<and>
                    (\<exists>a \<in> set (rows results). cell_at a PD_NUM = cell_at f PD_NUM))
                (rows ex_geo))
        (rows merged)"
    and crs: "to_crs Some merged = Inr joined"
    and rj: "rows joined = map (map (\<lambda>(c, v). (c, the (reproject_cell Some v)))) (rows merged)"
    and sel: "select_columns (simple_columns cs) joined = Inr simple"
    and rs: "rows simple = map (\<lambda>r. map (\<lambda>c. (c, cell_at r c)) (simple_columns cs)) (rows joined)"
    and evs: "fst ?run = Reading_csv (str ''r.csv'') #
          map Warning (warnings (detect_columns (columns ex_csv))) @
          [Detected_columns cs,
           Processing_for (Str (str ''Jonquiere'')) (Num (Fin 24030)),
           Reading_geojson (str ''g.geojson''),
           Total_features (length (rows ex_geo)),
           Unique_fed_nums (unique (map (\<lambda>f. cell_at f FED_NUM) (rows ex_geo))),
           Features_for_district (Num (Fin 24030))
             (length (filter (\<lambda>f. cell_eq (cell_at f FED_NUM) (Num (Fin 24030))) (rows ex_geo))),
           Divisions_in_csv (nunique (map (\<lambda>a. cell_at a PD_NUM) (rows results))),
           Divisions_in_geojson
             (nunique (map (\<lambda>f. cell_at f PD_NUM)
                (filter (\<lambda>f. cell_eq (cell_at f FED_NUM) (Num (Fin 24030))) (rows ex_geo)))),
           Merged_features (length (rows merged)),
           Write_file (str ''r_election_results.geojson'') joined,
           Write_file (str ''r_election_simple.geojson'') simple,
           Processing_complete (str ''r_election_results.geojson'') (str ''r_election_simple.geojson''),
           Sample sample]"
    unfolding d n rf sf by blast
  from cs have cs': "cs = ex_cols" by (simp add: ex_columns_eval)
  from agg have res': "results = ex_results" by (simp add: cs' ex_aggregate_eval)
  have lg: "length (rows ex_geo) = 3" by (simp add: ex_geo_def)
  have lr: "length (rows ex_results) = 2" by (simp add: ex_results_def)
  have "length (filter (\<lambda>f. cell_eq (cell_at f FED_NUM) (Num (Fin 24030)) \<and>
                    (\<exists>a \<in> set (rows ex_results). cell_at a PD_NUM = cell_at f PD_NUM))
                (rows ex_geo)) = 1"
    by (simp add: ex_geo_def ex_results_def ex_result_labels_def ex_sum_labels_def
          cell_at_def label_defs)
  with list_all2_lengthD[OF la] have lm: "length (rows merged) = 1" by (simp add: res')
  have u: "unique (map (\<lambda>f. cell_at f FED_NUM) (rows ex_geo)) = [Num (Fin 24030), Num (Fin 24031)]"
    by (simp add: ex_geo_def unique_def cell_at_def label_defs)
  have fd: "filter (\<lambda>f. cell_eq (cell_at f FED_NUM) (Num (Fin 24030))) (rows ex_geo) =
              [[(FED_NUM, Num (Fin 24030)), (PD_NUM, Num (Fin 100)), (GEOMETRY, Geom ())],
               [(FED_NUM, Num (Fin 24030)), (PD_NUM, Num (Fin 102)), (GEOMETRY, Geom ())]]"
    by (simp add: ex_geo_def cell_at_def label_defs)
  have n1: "nunique (map (\<lambda>a. cell_at a PD_NUM) (rows ex_results)) = 2"
    by (simp add: ex_results_def ex_result_labels_def ex_sum_labels_def nunique_def unique_def
          cell_at_def label_defs)
  have n2: "nunique (map (\<lambda>f. cell_at f PD_NUM)
              [[(FED_NUM, Num (Fin 24030)), (PD_NUM, Num (Fin 100)), (GEOMETRY, Geom ())],
               [(FED_NUM, Num (Fin 24030)), (PD_NUM, Num (Fin 102)), (GEOMETRY, Geom ())]]) = 2"
    by (simp add: nunique_def unique_def cell_at_def label_defs)
  have evs': "fst ?run = Reading_csv (str ''r.csv'') #
          map Warning (warnings (detect_columns (columns ex_csv))) @
          [Detected_columns ex_cols,
           Processing_for (Str (str ''Jonquiere'')) (Num (Fin 24030)),
           Reading_geojson (str ''g.geojson''),
           Total_features 3,
           Unique_fed_nums [Num (Fin 24030), Num (Fin 24031)],
           Features_for_district (Num (Fin 24030)) 2,
           Divisions_in_csv 2,
           Divisions_in_geojson 2,
           Merged_features 1,
           Write_file (str ''r_election_results.geojson'') joined,
           Write_file (str ''r_election_simple.geojson'') simple,
           Processing_complete (str ''r_election_results.geojson'') (str ''r_election_simple.geojson''),
           Sample sample]"
    using evs unfolding cs' res' lg u fd n1 n2 lm by simp
  have lj: "length (rows joined) = 1" unfolding rj using lm by simp
  have ls: "length (rows simple) = 1" unfolding rs using lj by simp
  from run m[unfolded res'] lg lr lm crs lj sel[unfolded cs'] ls evs'
  show ?thesis
    by (intro exI[of _ "fst ?run"] exI[of _ merged] exI[of _ joined] exI[of _ simple]
          exI[of _ sample] conjI)
qed

section \<open>C9: failures and the files written\<close>

lemma process_failure:
  assumes "process_election_data repr reproject fn csv gfn gdf pfx = (out, Inl e)"
  shows "written out = [] \<or>
         (written out = [prefix_of fn pfx @ str ''_election_results.geojson''] \<and>
          (\<exists>cs district results jev joined.
              extract_columns (detect_columns (columns csv)) = Inr cs
            \<and> bindE (get_column (district_num_col cs) csv) iloc0 = Inr district
            \<and> aggregate repr csv cs = Inr results
            \<and> join_features reproject (district_features district gdf) results = (jev, Inr joined)
            \<and> select_columns (simple_columns cs) joined = Inl e))"
proof -
  note pc = process_cases[of repr reproject fn csv gfn gdf pfx, unfolded Let_def]
  note w = written_append written_warnings
  show ?thesis
  proof (cases "extract_columns (detect_columns (columns csv))")
    case Inl
    with assms show ?thesis unfolding pc by (auto simp: w)
  next
    case cs: (Inr cs)
    show ?thesis
    proof (cases "bindE (get_column (district_num_col cs) csv) iloc0")
      case Inl
      with assms cs show ?thesis unfolding pc by (auto simp: w)
    next
      case d: (Inr district)
      show ?thesis
      proof (cases "bindE (get_column (district_name_col cs) csv) iloc0")
        case Inl
        with assms cs d show ?thesis unfolding pc by (auto simp: w)
      next
        case n: (Inr dname)
        show ?thesis
        proof (cases "get_column FED_NUM gdf")
          case Inl
          with assms cs d n show ?thesis unfolding pc by (auto simp: w)
        next
          case f: (Inr fed)
          show ?thesis
          proof (cases "aggregate repr csv cs")
            case Inl
            with assms cs d n f show ?thesis unfolding pc by (auto simp: w)
          next
            case a: (Inr results)
            obtain jev jr where j: "join_features reproject (district_features district gdf) results = (jev, jr)"
              by (cases "join_features reproject (district_features district gdf) results") auto
            have wj: "written jev = []" by (rule join_features_written[OF j])
            show ?thesis
            proof (cases jr)
              case Inl
              with assms cs d n f a j wj show ?thesis unfolding pc by (auto simp: w)
            next
              case jr: (Inr joined)
              obtain wev wr where wo: "write_outputs (prefix_of fn pfx) cs joined = (wev, wr)"
                by (cases "write_outputs (prefix_of fn pfx) cs joined") auto
              show ?thesis
              proof (cases wr)
                case (Inl e')
                with assms cs d n f a j jr wo have e: "e' = e"
                  and out: "written out = written wev"
                  unfolding pc by (auto simp: w wj)
                from write_outputs_Inl[OF wo[unfolded Inl e]]
                have "select_columns (simple_columns cs) joined = Inl e"
                  and "written wev = [prefix_of fn pfx @ str ''_election_results.geojson'']"
                  by simp_all
                with cs d a j jr out show ?thesis by auto
              next
                case (Inr names)
                with assms cs d n f a j jr wo show ?thesis
                  unfolding pc by (cases names) auto
              qed
            qed
          qed
        qed
      qed
    qed
  qed
qed

lemma process_written:
  assumes "process_election_data repr reproject fn csv gfn gdf pfx = (out, Inr res)"
  shows "written out = [results_file res, simple_file res]"
proof -
  from process_success[OF assms] obtain cs fed results jev joined wev where
    j: "join_features reproject (district_features (res_district_number res) gdf) results = (jev, Inr joined)"
    and w: "write_outputs (prefix_of fn pfx) cs joined = (wev, Inr (results_file res, simple_file res))"
    and evs: "out = Reading_csv fn # map Warning (warnings (detect_columns (columns csv))) @
           [Detected_columns cs, Processing_for (res_district_name res) (res_district_number res),
            Reading_geojson gfn, Total_features (length (rows gdf)),
            Unique_fed_nums (unique fed),
            Features_for_district (res_district_number res)
              (length (rows (district_features (res_district_number res) gdf)))] @ jev @ wev"
    by blast
  have wj: "written jev = []" by (rule join_features_written[OF j])
  from write_outputs_Inr[OF w] have "written wev = [results_file res, simple_file res]"
    by auto
  with wj show ?thesis unfolding evs by (simp add: written_append written_warnings)
qed

text \<open>
  Claim C9 says that both files are written only after all computation has succeeded.
  The script writes the first file (line 119) before it selects the simplified columns
  (line 123). When the boundary file has a column \<open>PD_NAME\<close> of its own, the join renames
  both name columns (\<open>PD_NAME_x\<close>, \<open>PD_NAME_y\<close>) and the selection raises a
  \<open>KeyError\<close>: the run fails, and the first file is left behind without the second.
\<close>

theorem C9_counterexample:
  "snd (main ex_repr Some (ex_fs ex_geo_named) [str ''r.csv'', str ''g.geojson''])
     = Inl (KeyError (str ''PD_NAME''))
   \<and> written (fst (main ex_repr Some (ex_fs ex_geo_named) [str ''r.csv'', str ''g.geojson'']))
     = [str ''r_election_results.geojson'']"
proof -
  let ?run = "process_election_data ex_repr Some (str ''r.csv'') ex_csv (str ''g.geojson'')
                ex_geo_named None"
  have "?run = (fst ?run, snd ?run)" by simp
  then have run: "?run = (fst ?run, Inl (KeyError (str ''PD_NAME'')))" unfolding ex_run_fail(1) .
  have a: "ex_fs ex_geo_named (str ''r.csv'') = Some ex_csv"
    and b: "ex_fs ex_geo_named (str ''g.geojson'') = Some ex_geo_named"
    by (simp_all add: ex_fs_def str_def)
  have "main ex_repr Some (ex_fs ex_geo_named) (str ''r.csv'' # [str ''g.geojson'']) =
          (fst ?run @ [Error_processing (KeyError (str ''PD_NAME''))], Inl (KeyError (str ''PD_NAME'')))"
    by (rule main_reraises[where fs = "ex_fs ex_geo_named" and csv = ex_csv
          and gdf = ex_geo_named and args = "[str ''g.geojson'']"])
       (simp_all add: a b run[symmetric])
  then show ?thesis by (simp add: written_append ex_run_fail(2))
qed

text \<open>
  Claim C9, amended. When the processing fails with an error \<open>e\<close>, \<open>main\<close> prints the
  error after the lines of the processing and raises it again. A failed run has written
  either nothing, or the first file alone; the latter only when everything up to the join
  and the reprojection has succeeded and the selection of the simplified columns is what
  raised \<open>e\<close>. The second file is never written by a failed run, and a run that returns
  has written the two files, in this order.
\<close>

theorem C9_failure_handling:
  "(process_election_data repr reproject fn csv gfn gdf pfx = (out, Inl e) \<longrightarrow>
      (fs fn = Some csv \<and> fs gfn = Some gdf
         \<and> gfn = (case args of [] \<Rightarrow> str ''polling_divisions.geojson'' | g # _ \<Rightarrow> g)
         \<and> pfx = (case args of _ # p # _ \<Rightarrow> Some p | _ \<Rightarrow> None) \<longrightarrow>
       main repr reproject fs (fn # args) = (out @ [Error_processing e], Inl e))
    \<and> (written out = [] \<or>
        (written out = [prefix_of fn pfx @ str ''_election_results.geojson''] \<and>
         (\<exists>cs district results jev joined.
             extract_columns (detect_columns (columns csv)) = Inr cs
           \<and> bindE (get_column (district_num_col cs) csv) iloc0 = Inr district
           \<and> aggregate repr csv cs = Inr results
           \<and> join_features reproject (district_features district gdf) results = (jev, Inr joined)
           \<and> select_columns (simple_columns cs) joined = Inl e))))
   \<and> (process_election_data repr reproject fn csv gfn gdf pfx = (out, Inr res) \<longrightarrow>
        written out = [results_file res, simple_file res])"
proof (intro conjI impI)
  assume run: "process_election_data repr reproject fn csv gfn gdf pfx = (out, Inl e)"
  show "written out = [] \<or>
        (written out = [prefix_of fn pfx @ str ''_election_results.geojson''] \<and>
         (\<exists>cs district results jev joined.
             extract_columns (detect_columns (columns csv)) = Inr cs
           \<and> bindE (get_column (district_num_col cs) csv) iloc0 = Inr district
           \<and> aggregate repr csv cs = Inr results
           \<and> join_features reproject (district_features district gdf) results = (jev, Inr joined)
           \<and> select_columns (simple_columns cs) joined = Inl e))"
    by (rule process_failure[OF run])
  assume files: "fs fn = Some csv \<and> fs gfn = Some gdf
         \<and> gfn = (case args of [] \<Rightarrow> str ''polling_divisions.geojson'' | g # _ \<Rightarrow> g)
         \<and> pfx = (case args of _ # p # _ \<Rightarrow> Some p | _ \<Rightarrow> None)"
  from files have a: "fs fn = Some csv" by blast
  from files have g: "gfn = (case args of [] \<Rightarrow> str ''polling_divisions.geojson'' | g # _ \<Rightarrow> g)"
    and p: "pfx = (case args of _ # p # _ \<Rightarrow> Some p | _ \<Rightarrow> None)" by blast+
  from files have b: "fs gfn = Some gdf" by blast
  show "main repr reproject fs (fn # args) = (out @ [Error_processing e], Inl e)"
    by (rule main_reraises[OF a b[unfolded g] run[unfolded g p]])
next
  assume "process_election_data repr reproject fn csv gfn gdf pfx = (out, Inr res)"
  then show "written out = [results_file res, simple_file res]" by (rule process_written)
qed

theorem C9_failure_handling_witness:
  "\<exists>out out'.
      process_election_data ex_repr Some (str ''r.csv'') ex_csv (str ''g.geojson'') ex_geo_named None
        = (out, Inl (KeyError (str ''PD_NAME'')))
    \<and> ex_fs ex_geo_named (str ''r.csv'') = Some ex_csv
    \<and> ex_fs ex_geo_named (str ''g.geojson'') = Some ex_geo_named
    \<and> main ex_repr Some (ex_fs ex_geo_named) [str ''r.csv'', str ''g.geojson'']
        = (out @ [Error_processing (KeyError (str ''PD_NAME''))], Inl (KeyError (str ''PD_NAME'')))
    \<and> written out = [str ''r_election_results.geojson'']
    \<and> (\<exists>jev joined.
          join_features Some (district_features (Num (Fin 24030)) ex_geo_named) ex_results
            = (jev, Inr joined)
        \<and> select_columns (simple_columns ex_cols) joined = Inl (KeyError (str ''PD_NAME'')))
    \<and> process_election_data ex_repr Some (str ''r.csv'') ex_csv (str ''g.geojson'') ex_geo None
        = (out', Inr ex_result)
    \<and> written out' = [str ''r_election_results.geojson'', str ''r_election_simple.geojson'']"
proof -
  let ?e = "KeyError (str ''PD_NAME'')"
  let ?bad = "process_election_data ex_repr Some (str ''r.csv'') ex_csv (str ''g.geojson'')
                ex_geo_named None"
  let ?good = "process_election_data ex_repr Some (str ''r.csv'') ex_csv (str ''g.geojson'')
                ex_geo None"
  have "?bad = (fst ?bad, snd ?bad)" by simp
  then have bad: "?bad = (fst ?bad, Inl ?e)" unfolding ex_run_fail(1) .
  have "?good = (fst ?good, snd ?good)" by simp
  then have good: "?good = (fst ?good, Inr ex_result)" unfolding ex_run_ok .
  have a: "ex_fs ex_geo_named (str ''r.csv'') = Some ex_csv"
    and b: "ex_fs ex_geo_named (str ''g.geojson'') = Some ex_geo_named"
    by (simp_all add: ex_fs_def str_def)
  note inst = C9_failure_handling[where repr = ex_repr and reproject = Some
      and fn = "str ''r.csv''" and csv = ex_csv and gfn = "str ''g.geojson''" and pfx = None]
  note fail = inst[where gdf = ex_geo_named and out = "fst ?bad" and e = ?e
      and fs = "ex_fs ex_geo_named" and args = "[str ''g.geojson'']", THEN conjunct1, THEN mp, OF bad]
  from fail a b
  have m: "main ex_repr Some (ex_fs ex_geo_named) [str ''r.csv'', str ''g.geojson'']
             = (fst ?bad @ [Error_processing ?e], Inl ?e)"
    by simp
  have w: "written (fst ?bad) = [str ''r_election_results.geojson'']" by (rule ex_run_fail(2))
  from fail have "written (fst ?bad) = [] \<or>
        (written (fst ?bad) = [prefix_of (str ''r.csv'') None @ str ''_election_results.geojson''] \<and>
         (\<exists>cs district results jev joined.
             extract_columns (detect_columns (columns ex_csv)) = Inr cs
           \<and> bindE (get_column (district_num_col cs) ex_csv) iloc0 = Inr district
           \<and> aggregate ex_repr ex_csv cs = Inr results
           \<and> join_features Some (district_features district ex_geo_named) results = (jev, Inr joined)
           \<and> select_columns (simple_columns cs) joined = Inl ?e))"
    by (rule conjunct2)
  moreover from w have "written (fst ?bad) \<noteq> []" by simp
  ultimately have "\<exists>cs district results jev joined.
             extract_columns (detect_columns (columns ex_csv)) = Inr cs
           \<and> bindE (get_column (district_num_col cs) ex_csv) iloc0 = Inr district
           \<and> aggregate ex_repr ex_csv cs = Inr results
           \<and> join_features Some (district_features district ex_geo_named) results = (jev, Inr joined)
           \<and> select_columns (simple_columns cs) joined = Inl ?e"
    by blast
  then obtain cs district results jev joined where
    cs: "extract_columns (detect_columns (columns ex_csv)) = Inr cs"
    and d: "bindE (get_column (district_num_col cs) ex_csv) iloc0 = Inr district"
    and agg: "aggregate ex_repr ex_csv cs = Inr results"
    and j: "join_features Some (district_features district ex_geo_named) results = (jev, Inr joined)"
    and sel: "select_columns (simple_columns cs) joined = Inl ?e"
    by blast
  from cs have cs': "cs = ex_cols" by (simp add: ex_columns_eval)
  from d have d': "district = Num (Fin 24030)" by (simp add: cs' ex_district_eval)
  from agg have res': "results = ex_results" by (simp add: cs' ex_aggregate_eval)
  from j sel have js: "\<exists>jev joined.
          join_features Some (district_features (Num (Fin 24030)) ex_geo_named) ex_results
            = (jev, Inr joined)
        \<and> select_columns (simple_columns ex_cols) joined = Inl ?e"
    unfolding cs' d' res' by blast
  from inst[where gdf = ex_geo and out = "fst ?good" and res = ex_result, THEN conjunct2, THEN mp, OF good]
  have w': "written (fst ?good) = [str ''r_election_results.geojson'', str ''r_election_simple.geojson'']"
    by (simp add: ex_result_def)
  show ?thesis
    apply (rule exI[of _ "fst ?bad"], rule exI[of _ "fst ?good"])
    using bad a b m w js good w' by (intro conjI)
qed

end
